theory Spec2Isabelle
  imports Complex_Main
begin

section \<open>Python values used by server.py\<close>

text \<open>
  Python \<open>float\<close> values are modelled as \<open>real\<close>: arithmetic is exact, rounding of
  the binary representation is not part of the model. Python \<open>str\<close> and \<open>bytes\<close> are both
  lists of \<open>char\<close>; for \<open>str\<close> a \<open>char\<close> stands for a code point below 256.
\<close>

definition CR :: char where "CR = CHR 0x0D"
definition LF :: char where "LF = CHR 0x0A"
definition DQUOTE :: char where "DQUOTE = CHR 0x22"
definition SQUOTE :: char where "SQUOTE = CHR 0x27"
definition CRLF :: string where "CRLF = [CR, LF]"

subsection \<open>Sequence operations of \<open>str\<close> and \<open>bytes\<close>\<close>

text \<open>\<open>s.startswith(p)\<close>.\<close>

fun startswith :: "'a list \<Rightarrow> 'a list \<Rightarrow> bool" where
  "startswith s [] = True"
| "startswith [] (p # ps) = False"
| "startswith (c # cs) (p # ps) = (c = p \<and> startswith cs ps)"

text \<open>\<open>sub in s\<close> for two strings: \<open>sub\<close> occurs in \<open>s\<close> as a contiguous run.\<close>

fun contains :: "'a list \<Rightarrow> 'a list \<Rightarrow> bool" where
  "contains sub [] = (sub = [])"
| "contains sub (c # cs) = (startswith (c # cs) sub \<or> contains sub cs)"

text \<open>
  The leftmost occurrence of \<open>sep\<close> in \<open>s\<close>: the text before it and the text after it
  (what \<open>s.find(sep)\<close> locates); \<open>None\<close> when \<open>sep\<close> does not occur.
\<close>

fun find_first :: "'a list \<Rightarrow> 'a list \<Rightarrow> ('a list \<times> 'a list) option" where
  "find_first sep [] = (if sep = [] then Some ([], []) else None)"
| "find_first sep (c # cs) =
     (if startswith (c # cs) sep then Some ([], drop (length sep) (c # cs))
      else (case find_first sep cs of
              None \<Rightarrow> None
            | Some (a, b) \<Rightarrow> Some (c # a, b)))"

text \<open>The rightmost occurrence (\<open>s.rfind(sep)\<close>), found on the reversed sequences.\<close>

definition find_last :: "'a list \<Rightarrow> 'a list \<Rightarrow> ('a list \<times> 'a list) option" where
  "find_last sep s =
     (case find_first (rev sep) (rev s) of
        None \<Rightarrow> None
      | Some (a, b) \<Rightarrow> Some (rev b, rev a))"

text \<open>
  \<open>s.split(sep)\<close>: cut at every occurrence, leftmost first, occurrences not overlapping.
  Python raises \<open>ValueError\<close> on an empty separator; every separator in server.py is a
  non-empty literal (or \<open>b'--' + boundary\<close>), so that branch is never reached and is given
  the value \<open>[s]\<close>.
\<close>

function split_on :: "'a list \<Rightarrow> 'a list \<Rightarrow> 'a list list" where
  "split_on sep s =
     (if sep = [] then [s]
      else (case find_first sep s of
              None \<Rightarrow> [s]
            | Some (a, b) \<Rightarrow> a # split_on sep b))"
  by pat_completeness auto
termination
proof (relation "measure (\<lambda>(sep, s). length s)")
  show "wf (measure (\<lambda>(sep :: 'a list, s :: 'a list). length s))"
    by simp
next
  fix sep s :: "'a list" and x2 a b
  assume ne: "sep \<noteq> []" and f: "find_first sep s = Some x2" and x2: "(a, b) = x2"
  have "\<And>a b. find_first sep s = Some (a, b) \<Longrightarrow> length s = length a + length sep + length b"
  proof (induction s)
    case Nil
    then show ?case by (simp split: if_splits)
  next
    case (Cons c cs)
    show ?case
    proof (cases "startswith (c # cs) sep")
      case True
      have "\<And>t. startswith t sep \<Longrightarrow> length sep \<le> length t"
      proof -
        fix t :: "'a list"
        show "startswith t sep \<Longrightarrow> length sep \<le> length t"
          by (induction t sep rule: startswith.induct) auto
      qed
      from this [OF True] True Cons.prems show ?thesis
        by auto
    next
      case False
      with Cons.prems obtain a' where "find_first sep cs = Some (a', b)" and "a = c # a'"
        by (auto split: option.splits)
      with Cons.IH [of a' b] show ?thesis
        by simp
    qed
  qed
  from this [of a b] f x2 ne
  show "((sep, b), (sep, s)) \<in> measure (\<lambda>(sep, s). length s)"
    by (cases sep) auto
qed

declare split_on.simps [simp del]

text \<open>\<open>s.split(sep, 1)\<close>: at most one cut, at the leftmost occurrence.\<close>

definition split_max1 :: "'a list \<Rightarrow> 'a list \<Rightarrow> 'a list list" where
  "split_max1 sep s =
     (case find_first sep s of None \<Rightarrow> [s] | Some (a, b) \<Rightarrow> [a, b])"

text \<open>\<open>s.rsplit(sep, 1)\<close>: at most one cut, at the rightmost occurrence.\<close>

definition rsplit_max1 :: "'a list \<Rightarrow> 'a list \<Rightarrow> 'a list list" where
  "rsplit_max1 sep s =
     (case find_last sep s of None \<Rightarrow> [s] | Some (a, b) \<Rightarrow> [a, b])"

text \<open>\<open>s.replace(old, new)\<close> for a non-empty \<open>old\<close>: every occurrence, leftmost first.\<close>

function replace :: "'a list \<Rightarrow> 'a list \<Rightarrow> 'a list \<Rightarrow> 'a list" where
  "replace old new s =
     (if old = [] then s
      else (case find_first old s of
              None \<Rightarrow> s
            | Some (a, b) \<Rightarrow> a @ new @ replace old new b))"
  by pat_completeness auto
termination
proof (relation "measure (\<lambda>(old, new, s). length s)")
  show "wf (measure (\<lambda>(old :: 'a list, new :: 'a list, s :: 'a list). length s))"
    by simp
next
  fix old new s :: "'a list" and x2 a b
  assume ne: "old \<noteq> []" and f: "find_first old s = Some x2" and x2: "(a, b) = x2"
  have "\<And>a b. find_first old s = Some (a, b) \<Longrightarrow> length s = length a + length old + length b"
  proof (induction s)
    case Nil
    then show ?case by (simp split: if_splits)
  next
    case (Cons c cs)
    show ?case
    proof (cases "startswith (c # cs) old")
      case True
      have "\<And>t. startswith t old \<Longrightarrow> length old \<le> length t"
      proof -
        fix t :: "'a list"
        show "startswith t old \<Longrightarrow> length old \<le> length t"
          by (induction t old rule: startswith.induct) auto
      qed
      from this [OF True] True Cons.prems show ?thesis
        by auto
    next
      case False
      with Cons.prems obtain a' where "find_first old cs = Some (a', b)" and "a = c # a'"
        by (auto split: option.splits)
      with Cons.IH [of a' b] show ?thesis
        by simp
    qed
  qed
  from this [of a b] f x2 ne
  show "((old, new, b), (old, new, s)) \<in> measure (\<lambda>(old, new, s). length s)"
    by (cases old) auto
qed

declare replace.simps [simp del]

text \<open>\<open>s.strip(chars)\<close>: drop leading and trailing elements that satisfy \<open>P\<close>.\<close>

definition strip_by :: "('a \<Rightarrow> bool) \<Rightarrow> 'a list \<Rightarrow> 'a list" where
  "strip_by P s = rev (dropWhile P (rev (dropWhile P s)))"

text \<open>
  \<open>str.isspace\<close> on code points below 256: tab to carriage return, the four separators
  \<open>0x1C\<close> to \<open>0x1F\<close>, space, \<open>0x85\<close> and \<open>0xA0\<close>.
\<close>

definition is_space :: "char \<Rightarrow> bool" where
  "is_space c = (c \<in> set [CHR 0x09, CHR 0x0A, CHR 0x0B, CHR 0x0C, CHR 0x0D,
                            CHR 0x1C, CHR 0x1D, CHR 0x1E, CHR 0x1F, CHR 0x20,
                            CHR 0x85, CHR 0xA0])"

text \<open>\<open>s.strip()\<close> on a \<open>str\<close>.\<close>

definition strip :: "string \<Rightarrow> string" where
  "strip s = strip_by is_space s"

text \<open>\<open>s.strip(chars)\<close> with an explicit set of characters.\<close>

definition strip_chars :: "string \<Rightarrow> string \<Rightarrow> string" where
  "strip_chars chars s = strip_by (\<lambda>c. c \<in> set chars) s"

text \<open>
  \<open>s.split()\<close> without a separator: the maximal runs of non-whitespace characters.
  \<open>cur\<close> is the run being read, reversed.
\<close>

fun split_ws_from :: "string \<Rightarrow> string \<Rightarrow> string list" where
  "split_ws_from cur [] = (if cur = [] then [] else [rev cur])"
| "split_ws_from cur (c # cs) =
     (if is_space c
      then (if cur = [] then split_ws_from [] cs else rev cur # split_ws_from [] cs)
      else split_ws_from (c # cur) cs)"

definition split_ws :: "string \<Rightarrow> string list" where
  "split_ws s = split_ws_from [] s"

text \<open>\<open>sep.join(parts)\<close>.\<close>

fun join :: "'a list \<Rightarrow> 'a list list \<Rightarrow> 'a list" where
  "join sep [] = []"
| "join sep [p] = p"
| "join sep (p # q # ps) = p @ sep @ join sep (q # ps)"

text \<open>
  \<open>s.lower()\<close> on code points below 256: the letters A to Z and the Latin-1 capitals
  \<open>0xC0\<close> to \<open>0xDE\<close> (not the multiplication sign \<open>0xD7\<close>) move up by 32, which
  sets the bit of weight 32 (it is clear in every one of them).
\<close>

definition lower_char :: "char \<Rightarrow> char" where
  "lower_char c =
     (let n = (of_char c :: nat)
      in if (65 \<le> n \<and> n \<le> 90) \<or> (192 \<le> n \<and> n \<le> 222 \<and> n \<noteq> 215)
         then (case c of Char b0 b1 b2 b3 b4 b5 b6 b7 \<Rightarrow> Char b0 b1 b2 b3 b4 True b6 b7)
         else c)"

definition lower :: "string \<Rightarrow> string" where
  "lower s = map lower_char s"

subsection \<open>Rounding\<close>

text \<open>
  \<open>round(x, ndigits)\<close> on a float: the nearest multiple of \<open>10 ** -ndigits\<close>, a tie going
  to the even multiple.
\<close>

definition round_half_even :: "real \<Rightarrow> int" where
  "round_half_even y =
     (let f = \<lfloor>y\<rfloor>; d = y - of_int f
      in if d < 1 / 2 then f
         else if 1 / 2 < d then f + 1
         else if even f then f else f + 1)"

definition py_round :: "real \<Rightarrow> nat \<Rightarrow> real" where
  "py_round x ndigits = of_int (round_half_even (x * 10 ^ ndigits)) / 10 ^ ndigits"


section \<open>Metadata extractor\<close>

text \<open>
  A value of the GPS directory as Pillow hands it over: a tuple of rationals (the
  degrees, minutes, seconds of a coordinate), a text, a byte string or a single number.
\<close>

datatype gps_value =
    GpsTuple "real list"
  | GpsText string
  | GpsBytes string
  | GpsNumber real

text \<open>
  Exceptions raised while a request is handled: by a library call (Pillow, the socket,
  the file system, \<open>json\<close>), with its message, or by the interpreter on an unpacking,
  a conversion or an index out of range.
\<close>

datatype py_exn =
    LibraryError string
  | ValueError
  | TypeError
  | IndexError

text \<open>\<open>float(c)\<close> for a one-character string: a decimal digit, or \<open>ValueError\<close>.\<close>

definition float_of_char :: "char \<Rightarrow> py_exn + real" where
  "float_of_char c =
     (let n = (of_char c :: nat)
      in if 48 \<le> n \<and> n \<le> 57 then Inr (real (n - 48)) else Inl ValueError)"

text \<open>
  \<open>convert_to_degrees\<close> (lines 94 to 97). \<open>d, m, s = value\<close> raises \<open>ValueError\<close> unless
  the value has exactly three elements and \<open>TypeError\<close> when it is not iterable;
  the elements of a text are one-character strings, those of a byte string are integers.
\<close>

fun convert_to_degrees :: "gps_value \<Rightarrow> py_exn + real" where
  "convert_to_degrees (GpsTuple [d, m, s]) = Inr (d + (m / 60) + (s / 3600))"
| "convert_to_degrees (GpsTuple _) = Inl ValueError"
| "convert_to_degrees (GpsText [d, m, s]) =
     (case float_of_char d of
        Inl e \<Rightarrow> Inl e
      | Inr fd \<Rightarrow>
          (case float_of_char m of
             Inl e \<Rightarrow> Inl e
           | Inr fm \<Rightarrow>
               (case float_of_char s of
                  Inl e \<Rightarrow> Inl e
                | Inr fs \<Rightarrow> Inr (fd + (fm / 60) + (fs / 3600)))))"
| "convert_to_degrees (GpsText _) = Inl ValueError"
| "convert_to_degrees (GpsBytes [d, m, s]) =
     Inr (real (of_char d) + (real (of_char m) / 60) + (real (of_char s) / 3600))"
| "convert_to_degrees (GpsBytes _) = Inl ValueError"
| "convert_to_degrees (GpsNumber _) = Inl TypeError"

text \<open>
  The dictionary \<open>extract_exif_data\<close> returns. \<open>tags\<close> are the top-level tags, copied
  under their names by the loop of lines 52 to 62 and kept opaque here; the other
  fields are the keys the function adds itself. \<open>error\<close> is set when the dictionary
  is \<open>{"error": str(e)}\<close> and holds the exception \<open>e\<close>.
\<close>

record 't exif_data =
  tags :: "'t option"
  GPSLatitude :: "real option"
  GPSLongitude :: "real option"
  GPSData :: "(string \<rightharpoonup> gps_value) option"
  error :: "py_exn option"

text \<open>
  What Pillow reads from the file: nothing (\<open>Image.open\<close> or \<open>getexif\<close> raises, with the
  message given), or the top-level tags and the items of the GPS directory
  \<open>get_ifd(0x8825)\<close>, each keyed by its name in \<open>GPSTAGS\<close>.
\<close>

datatype 't image =
    Unreadable string
  | Image 't "(string \<times> gps_value) list"

definition exif_error :: "py_exn \<Rightarrow> 't exif_data" where
  "exif_error e =
     \<lparr>tags = None, GPSLatitude = None, GPSLongitude = None, GPSData = None, error = Some e\<rparr>"

text \<open>Lines 67 to 70: the dictionary \<open>gps_data\<close>, a later item replacing an earlier one.\<close>

definition gps_data_of :: "(string \<times> gps_value) list \<Rightarrow> (string \<rightharpoonup> gps_value)" where
  "gps_data_of gps_info = fold (\<lambda>(tag, v) m. m(tag \<mapsto> v)) gps_info Map.empty"

text \<open>\<open>extract_exif_data\<close> (lines 42 to 91).\<close>

definition extract_exif_data :: "'t image \<Rightarrow> 't exif_data" where
  "extract_exif_data img =
     (case img of
        Unreadable msg \<Rightarrow> exif_error (LibraryError msg)
      | Image top_tags gps_info \<Rightarrow>
          (let exif = \<lparr>tags = Some top_tags, GPSLatitude = None, GPSLongitude = None,
                        GPSData = None, error = None\<rparr>
           in if gps_info = [] then exif
              else
                (let gps_data = gps_data_of gps_info
                 in case (gps_data ''GPSLatitude'', gps_data ''GPSLongitude'') of
                      (Some vlat, Some vlon) \<Rightarrow>
                        (case convert_to_degrees vlat of
                           Inl e \<Rightarrow> exif_error e
                         | Inr lat \<Rightarrow>
                             (case convert_to_degrees vlon of
                                Inl e \<Rightarrow> exif_error e
                              | Inr lon \<Rightarrow>
                                  (let lat' = (if gps_data ''GPSLatitudeRef'' = Some (GpsText ''S'')
                                               then - lat else lat);
                                       lon' = (if gps_data ''GPSLongitudeRef'' = Some (GpsText ''W'')
                                               then - lon else lon)
                                   in exif\<lparr>GPSLatitude := Some lat', GPSLongitude := Some lon',
                                           GPSData := Some gps_data\<rparr>)))
                    | _ \<Rightarrow> exif\<lparr>GPSData := Some gps_data\<rparr>)))"


section \<open>Geo enrichment clients\<close>

text \<open>
  The request URLs are f-strings of the coordinates; they are kept as structured values
  (the endpoint and the numbers formatted into it).
\<close>

datatype api_url =
    NominatimReverse real real
  | NominatimSearch real real

text \<open>
  The distance field of a SPARQL binding, as \<open>float(obj.get(key, 0))\<close> sees it: the key is
  missing (the default 0 is converted), the value converts to a number, or \<open>float\<close>
  raises on it. The numbers are the finite ones: \<open>nan\<close> and the infinities, which \<open>float\<close>
  accepts as well, are not among them.
\<close>

datatype json_number =
    Missing
  | Number real
  | Unparsable

text \<open>
  Exceptions inside the \<open>try\<close> block of a client: of the request (with the message), of
  \<open>float\<close> on a JSON value, and of floating-point arithmetic out of range.
\<close>

datatype client_exn =
    RequestError string
  | ConversionError
  | OverflowError

fun to_float :: "json_number \<Rightarrow> client_exn + real" where
  "to_float Missing = Inr 0"
| "to_float (Number r) = Inr r"
| "to_float Unparsable = Inl ConversionError"

subsection \<open>Nearby POI search\<close>

text \<open>
  The coordinates of the candidates and their distances are Python floats, and line 178
  computes in floating point: the results are rounded, \<open>nan\<close> and the infinities are
  values that \<open>float\<close> accepts, and a square that leaves the range raises
  \<open>OverflowError\<close>. Floating point is not modelled here. The type \<open>'f\<close> stands for the
  floats, and the operations the search applies to them are taken as they are:
  \<open>float_zero\<close> is \<open>float(0)\<close>; \<open>rough_meters lat lon item_lat item_lon\<close> is the value of line 178,
  \<open>((lat - item_lat)**2 + (lon - item_lon)**2)**0.5 * 111000\<close>, or \<open>None\<close> when it raises
  \<open>OverflowError\<close>; \<open>exceeds_ten distance\<close> is the test \<open>distance > 10\<close>; \<open>round_one distance\<close>
  is \<open>round(distance, 1)\<close>.
\<close>

record 'f float_ops =
  float_zero :: 'f
  rough_meters :: "real \<Rightarrow> real \<Rightarrow> 'f \<Rightarrow> 'f \<Rightarrow> 'f option"
  exceeds_ten :: "'f \<Rightarrow> bool"
  round_one :: "'f \<Rightarrow> 'f"

text \<open>
  A coordinate field of a candidate, as \<open>float(item.get(key, 0))\<close> sees it: the key is
  missing (the default 0 is converted), \<open>float\<close> gives the float shown, or \<open>float\<close> raises.
\<close>

datatype 'f json_float =
    NoValue
  | FloatValue 'f
  | NotAFloat

fun float_of :: "'f float_ops \<Rightarrow> 'f json_float \<Rightarrow> client_exn + 'f" where
  "float_of ops NoValue = Inr (float_zero ops)"
| "float_of ops (FloatValue x) = Inr x"
| "float_of ops NotAFloat = Inl ConversionError"

text \<open>
  One object of the upstream JSON array. A text field is \<open>None\<close> when its key is missing.
\<close>

record 'f candidate =
  cand_name :: "string option"
  cand_type :: "string option"
  cand_category :: "string option"
  cand_class :: "string option"
  cand_display_name :: "string option"
  cand_lat :: "'f json_float"
  cand_lon :: "'f json_float"

text \<open>One entry of the returned \<open>pois\<close> list (lines 181 to 190).\<close>

record 'f poi =
  poi_name :: string
  poi_type :: "string option"
  poi_category :: "string option"
  poi_class :: "string option"
  poi_display_name :: string
  poi_distance :: 'f
  poi_lat :: 'f
  poi_lon :: 'f

text \<open>
  What the request of lines 158 to 163 yields: an exception with its message (from
  \<open>urlopen\<close>, \<open>read\<close> or \<open>json.loads\<close>), a JSON array, or JSON of another shape.
\<close>

datatype 'f poi_upstream =
    Raises string
  | JsonList "'f candidate list"
  | JsonOther

datatype 'f poi_api_response =
    RawData "'f candidate list"
  | InvalidResponseFormat
  | ErrorOf client_exn

record 'f poi_result =
  pois :: "'f poi list"
  api_url :: api_url
  api_response :: "'f poi_api_response"

text \<open>The lines \<open>search_nearby_poi\<close> prints.\<close>

datatype 'f console_line =
    PoiSearchRequest
  | PrintUrl api_url
  | PrintCenter real real
  | PrintCameraDirection real
  | PoiSearchResponse
  | PrintFound nat
  | PrintFirst "'f candidate list"
  | PoiSearchError
  | PrintError client_exn

text \<open>
  The loop body of lines 172 to 190 over the items it is given; an exception of \<open>float\<close>
  or of the arithmetic of line 178 leaves the loop (and the \<open>try\<close> block).
\<close>

fun collect_pois ::
    "'f float_ops \<Rightarrow> real \<Rightarrow> real \<Rightarrow> 'f candidate list \<Rightarrow> client_exn + 'f poi list" where
  "collect_pois ops lat lon [] = Inr []"
| "collect_pois ops lat lon (item # items) =
     (let display_name = (case cand_display_name item of None \<Rightarrow> [] | Some t \<Rightarrow> t);
          name = (case cand_name item of None \<Rightarrow> [] | Some t \<Rightarrow> t)
      in case float_of ops (cand_lat item) of
           Inl e \<Rightarrow> Inl e
         | Inr item_lat \<Rightarrow>
             (case float_of ops (cand_lon item) of
                Inl e \<Rightarrow> Inl e
              | Inr item_lon \<Rightarrow>
                  (case rough_meters ops lat lon item_lat item_lon of
                     None \<Rightarrow> Inl OverflowError
                   | Some distance \<Rightarrow>
                       (case collect_pois ops lat lon items of
                          Inl e \<Rightarrow> Inl e
                        | Inr rest \<Rightarrow>
                            (if exceeds_ten ops distance \<and> name \<noteq> []
                             then Inr (\<lparr>poi_name = name, poi_type = cand_type item,
                                        poi_category = cand_category item,
                                        poi_class = cand_class item,
                                        poi_display_name = display_name,
                                        poi_distance = round_one ops distance,
                                        poi_lat = item_lat, poi_lon = item_lon\<rparr> # rest)
                             else Inr rest)))))"

text \<open>
  \<open>search_nearby_poi\<close> (lines 138 to 206), with the float operations \<open>ops\<close> and the network
  as the function \<open>fetch\<close>. The result is the returned dictionary and the lines printed.
\<close>

definition search_nearby_poi ::
    "'f float_ops \<Rightarrow> (api_url \<Rightarrow> 'f poi_upstream) \<Rightarrow> real \<Rightarrow> real \<Rightarrow> real option
      \<Rightarrow> 'f poi_result \<times> 'f console_line list" where
  "search_nearby_poi ops fetch lat lon direction =
     (let url = NominatimSearch lat lon;
          request_lines = [PoiSearchRequest, PrintUrl url, PrintCenter lat lon]
            @ (case direction of None \<Rightarrow> [] | Some d \<Rightarrow> [PrintCameraDirection d])
      in case fetch url of
           Raises msg \<Rightarrow>
             (\<lparr>pois = [], api_url = url, api_response = ErrorOf (RequestError msg)\<rparr>,
              request_lines @ [PoiSearchError, PrintError (RequestError msg)])
         | JsonOther \<Rightarrow>
             (\<lparr>pois = [], api_url = url, api_response = InvalidResponseFormat\<rparr>,
              request_lines @ [PoiSearchResponse, PrintFound 0])
         | JsonList data \<Rightarrow>
             (let response_lines = [PoiSearchResponse, PrintFound (length data)]
                    @ (if 0 < length data then [PrintFirst (take 3 data)] else [])
              in case collect_pois ops lat lon (take 15 data) of
                   Inl e \<Rightarrow>
                     (\<lparr>pois = [], api_url = url, api_response = ErrorOf e\<rparr>,
                      request_lines @ response_lines @ [PoiSearchError, PrintError e])
                 | Inr found \<Rightarrow>
                     (\<lparr>pois = found, api_url = url, api_response = RawData data\<rparr>,
                      request_lines @ response_lines)))"

subsection \<open>Wikidata proximity query\<close>

text \<open>
  The query of lines 223 to 232, an f-string of the longitude, the latitude and the radius
  (in this order in \<open>Point(lon lat)\<close>); its text ends with \<open>ORDER BY ?distance LIMIT 100\<close>.
\<close>

datatype sparql_query = AroundQuery real real real

text \<open>
  One binding of the response: \<open>result.get(var, {}).get("value", default)\<close> for each
  variable, \<open>None\<close> where the default applies.
\<close>

record binding =
  bind_place :: "string option"
  bind_placeLabel :: "string option"
  bind_placeDescription :: "string option"
  bind_instanceOfLabel :: "string option"
  bind_distance :: json_number

datatype sparql_response =
    QueryRaises string
  | Bindings "binding list"

record wikidata_place =
  wd_label :: string
  wd_description :: string
  wd_instance_of :: string
  distance_km :: real
  distance_m :: real
  wikidata_id :: string
  wikidata_url :: string

datatype wikidata_error =
    NotInstalled
  | QueryFailed client_exn

record wikidata_result =
  places :: "wikidata_place list"
  wd_query :: "sparql_query option"
  wd_raw_response :: "binding list option"
  wd_error :: "wikidata_error option"

text \<open>Lines 253 to 270: the place built from one binding.\<close>

definition place_of_binding :: "binding \<Rightarrow> real \<Rightarrow> wikidata_place" where
  "place_of_binding result distance =
     (let place_uri = (case bind_place result of None \<Rightarrow> [] | Some t \<Rightarrow> t);
          place_label = (case bind_placeLabel result of None \<Rightarrow> ''Unknown'' | Some t \<Rightarrow> t);
          place_desc = (case bind_placeDescription result of None \<Rightarrow> [] | Some t \<Rightarrow> t);
          instance = (case bind_instanceOfLabel result of None \<Rightarrow> [] | Some t \<Rightarrow> t);
          wid = (if place_uri \<noteq> [] then last (split_on ''/'' place_uri) else [])
      in \<lparr>wd_label = place_label, wd_description = place_desc, wd_instance_of = instance,
          distance_km = py_round distance 3,
          distance_m = py_round (distance * 1000) 1,
          wikidata_id = wid,
          wikidata_url = (if wid \<noteq> [] then ''https://www.wikidata.org/wiki/'' @ wid else [])\<rparr>)"

text \<open>The loop of lines 251 to 270; an exception of \<open>float\<close> leaves the \<open>try\<close> block.\<close>

fun collect_places :: "binding list \<Rightarrow> client_exn + wikidata_place list" where
  "collect_places [] = Inr []"
| "collect_places (result # results) =
     (case to_float (bind_distance result) of
        Inl e \<Rightarrow> Inl e
      | Inr distance \<Rightarrow>
          (case collect_places results of
             Inl e \<Rightarrow> Inl e
           | Inr rest \<Rightarrow> Inr (place_of_binding result distance # rest)))"

text \<open>
  \<open>query_wikidata_pois\<close> (lines 209 to 292): \<open>sparql_available\<close> is the flag
  \<open>SPARQL_AVAILABLE\<close>, \<open>run\<close> the endpoint.
\<close>

definition query_wikidata_pois ::
    "bool \<Rightarrow> (sparql_query \<Rightarrow> sparql_response) \<Rightarrow> real \<Rightarrow> real \<Rightarrow> real \<Rightarrow> wikidata_result" where
  "query_wikidata_pois sparql_available run lat lon radius_km =
     (if \<not> sparql_available
      then \<lparr>places = [], wd_query = None, wd_raw_response = None, wd_error = Some NotInstalled\<rparr>
      else
        (let query = AroundQuery lon lat radius_km
         in case run query of
              QueryRaises msg \<Rightarrow>
                \<lparr>places = [], wd_query = Some query, wd_raw_response = None,
                 wd_error = Some (QueryFailed (RequestError msg))\<rparr>
            | Bindings results \<Rightarrow>
                (case collect_places results of
                   Inl e \<Rightarrow>
                     \<lparr>places = [], wd_query = Some query, wd_raw_response = None,
                      wd_error = Some (QueryFailed e)\<rparr>
                 | Inr found \<Rightarrow>
                     \<lparr>places = found, wd_query = Some query,
                      wd_raw_response = Some results, wd_error = None\<rparr>)))"


subsection \<open>The terms of the claims about the geo clients\<close>

text \<open>
  The number a distance field stands for, and whether \<open>float\<close> accepts it.
\<close>

definition coord :: "json_number \<Rightarrow> real" where
  "coord j = (case j of Number r \<Rightarrow> r | _ \<Rightarrow> 0)"

definition convertible :: "json_number \<Rightarrow> bool" where
  "convertible j = (j \<noteq> Unparsable)"







text \<open>The distance and the entity URI of a binding, and the text after the last slash.\<close>

definition binding_distance :: "binding \<Rightarrow> real" where
  "binding_distance b = coord (bind_distance b)"

definition binding_uri :: "binding \<Rightarrow> string" where
  "binding_uri b = (case bind_place b of None \<Rightarrow> [] | Some t \<Rightarrow> t)"

definition after_last_slash :: "string \<Rightarrow> string" where
  "after_last_slash s = rev (takeWhile (\<lambda>c. c \<noteq> CHR ''/'') (rev s))"







text \<open>
  A SPARQL answer in the order the query asks for: one entity with two values of
  \<open>instance of\<close>, hence two rows at the same distance.
\<close>

definition row_museum :: binding where
  "row_museum = \<lparr>bind_place = Some ''http://www.wikidata.org/entity/Q64'',
      bind_placeLabel = Some ''Altes Museum'', bind_placeDescription = None,
      bind_instanceOfLabel = Some ''museum'', bind_distance = Number 0.5\<rparr>"

definition row_building :: binding where
  "row_building = \<lparr>bind_place = Some ''http://www.wikidata.org/entity/Q64'',
      bind_placeLabel = Some ''Altes Museum'', bind_placeDescription = None,
      bind_instanceOfLabel = Some ''building'', bind_distance = Number 0.5\<rparr>"

definition endpoint_two_rows :: "sparql_query \<Rightarrow> sparql_response" where
  "endpoint_two_rows q = Bindings [row_museum, row_building]"


section \<open>Description and language services\<close>

definition OLLAMA_MODEL :: string where
  "OLLAMA_MODEL = ''qwen3-vl:8b''"

definition OLLAMA_TRANSLATION_MODEL :: string where
  "OLLAMA_TRANSLATION_MODEL = ''gemma3:12b-it-qat''"

text \<open>
  An exception of a \<open>try\<close> block around a model call, with \<open>str(e)\<close>: a \<open>URLError\<close> (or its
  subclass \<open>HTTPError\<close>), or any other exception.
\<close>

datatype call_exn =
    URLError string
  | OtherException string

text \<open>
  What a chat request yields: an exception, or the decoded JSON answer, of which the
  program reads \<open>result['message']['content']\<close> only (\<open>None\<close> when \<open>message\<close> or \<open>content\<close>
  is missing).
\<close>

datatype chat_outcome =
    Raised call_exn
  | Replied "string option"

subsection \<open>Vision analysis\<close>

text \<open>
  The \<open>try\<close> block of \<open>analyze_image_with_ollama\<close> (lines 299 to 399) reads the image file,
  assembles the prompt and sends the request. Its outcome: an exception raised anywhere
  in it, or the prompt that was sent and the content of the answer.
\<close>

datatype vision_attempt =
    VisionRaised call_exn
  | VisionReplied string "string option"

record vision_data =
  vision_description :: "string option"
  vision_error :: "string option"
  vision_model :: string
  vision_prompt :: "string option"
  vision_raw_response :: "string option option"

text \<open>\<open>analyze_image_with_ollama\<close>: the result of the \<open>try\<close> block and its two handlers.\<close>

definition analyze_image_with_ollama :: "vision_attempt \<Rightarrow> vision_data" where
  "analyze_image_with_ollama attempt =
     (case attempt of
        VisionReplied prompt content \<Rightarrow>
          \<lparr>vision_description = (case content of None \<Rightarrow> None | Some t \<Rightarrow> Some (strip t)),
           vision_error = None, vision_model = OLLAMA_MODEL,
           vision_prompt = Some prompt, vision_raw_response = Some content\<rparr>
      | VisionRaised (URLError msg) \<Rightarrow>
          \<lparr>vision_description = None,
           vision_error = Some (''Failed to connect to Ollama. Is it running? Error: '' @ msg),
           vision_model = OLLAMA_MODEL, vision_prompt = None, vision_raw_response = None\<rparr>
      | VisionRaised (OtherException msg) \<Rightarrow>
          \<lparr>vision_description = None, vision_error = Some msg,
           vision_model = OLLAMA_MODEL, vision_prompt = None, vision_raw_response = None\<rparr>)"

subsection \<open>Translation\<close>

text \<open>The prompt of line 426.\<close>

definition translation_prompt :: "string \<Rightarrow> string \<Rightarrow> string" where
  "translation_prompt text target_language =
     ''Translate the following text from English to '' @ target_language
     @ ''. Only output the translation, nothing else. No interpretation, no explanation. ''
     @ ''Your only output should be a faithful translation of the text I gave, ''
     @ ''no other acknowledgement or talk.'' @ [LF, LF] @ text"

text \<open>
  \<open>translate_text\<close> (lines 421 to 459) for a text and a language that are strings;
  \<open>chat\<close> is the model server, asked with a model name and a prompt.
\<close>

definition translate_text :: "(string \<Rightarrow> string \<Rightarrow> chat_outcome) \<Rightarrow> string \<Rightarrow> string \<Rightarrow> string option" where
  "translate_text chat text target_language =
     (case chat OLLAMA_TRANSLATION_MODEL (translation_prompt text target_language) of
        Raised e \<Rightarrow> None
      | Replied None \<Rightarrow> None
      | Replied (Some content) \<Rightarrow> Some (strip content))"

subsection \<open>Filename suggestion\<close>

text \<open>
  The address of a reverse-geocoding result, \<open>location_data['data'].get('address', {})\<close>,
  with \<open>None\<close> for a missing key.
\<close>

record address =
  city :: "string option"
  town :: "string option"
  village :: "string option"
  country :: "string option"

text \<open>Whether Python takes an optional text for true: it is there and not empty.\<close>

definition truthy :: "string option \<Rightarrow> bool" where
  "truthy v = (case v of None \<Rightarrow> False | Some t \<Rightarrow> t \<noteq> [])"

text \<open>\<open>a or b\<close>.\<close>

definition py_or :: "string option \<Rightarrow> string option \<Rightarrow> string option" where
  "py_or a b = (if truthy a then a else b)"

text \<open>
  Lines 468 to 479: \<open>location_hint\<close>. The argument is \<open>None\<close> when \<open>location_data\<close> or its
  \<open>data\<close> is missing or empty.
\<close>

definition location_hint :: "address option \<Rightarrow> string" where
  "location_hint location =
     (case location of
        None \<Rightarrow> []
      | Some addr \<Rightarrow>
          (let c = py_or (py_or (city addr) (town addr)) (village addr)
           in if truthy c then '' in '' @ the c
              else if truthy (country addr) then '' in '' @ the (country addr)
              else []))"

text \<open>
  Lines 482 to 485: \<open>date_part\<close>. \<open>date_str.split()[0]\<close> raises \<open>IndexError\<close> on a string
  of whitespace only.
\<close>

definition date_part_of :: "string option \<Rightarrow> py_exn + string" where
  "date_part_of date_str =
     (case date_str of
        None \<Rightarrow> Inr []
      | Some d \<Rightarrow>
          (if d = [] then Inr []
           else if CHR '' '' \<in> set d
                then (case split_ws d of [] \<Rightarrow> Inl IndexError | w # ws \<Rightarrow> Inr w)
                else Inr d))"

text \<open>The prompt of lines 487 to 497, for a description that is a string.\<close>

definition filename_prompt :: "string \<Rightarrow> string \<Rightarrow> string" where
  "filename_prompt description hint =
     ''Based on this image description: '' @ [DQUOTE] @ description @ [DQUOTE] @ '', ''
     @ ''suggest a short, descriptive filename (3-6 words maximum) for Wikimedia Commons. ''
     @ ''The filename should describe the main subject clearly and concisely. ''
     @ ''Use only lowercase letters, spaces (not hyphens), and keep it simple. ''
     @ ''Do not include the file extension or date. ''
     @ ''Only output the filename words, nothing else.''
     @ (if hint \<noteq> [] then '' The photo was taken'' @ hint @ ''.'' else [])"

text \<open>Lines 521 to 533: the clean-up of the model's answer.\<close>

definition clean_filename_base :: "string \<Rightarrow> string" where
  "clean_filename_base content =
     (let b1 = strip content;
          b2 = lower b1;
          b3 = replace ''-'' '' '' b2;
          b4 = strip_chars ([DQUOTE, SQUOTE] @ ''.,!?'') b3;
          b5 = replace ''end_of_turn>'' [] b4;
          b6 = replace ''<end_of_turn>'' [] b5;
          b7 = replace ''</s>'' [] b6;
          b8 = replace ''<s>'' [] b7
      in join '' '' (split_ws b8))"

text \<open>Lines 536 to 544: the suggested filename from the cleaned words and the date part.\<close>

definition compose_filename :: "string option \<Rightarrow> string \<Rightarrow> string" where
  "compose_filename filename_base date_part =
     (if truthy filename_base \<and> date_part \<noteq> []
      then the filename_base @ '' '' @ date_part @ ''.jpg''
      else if truthy filename_base then the filename_base @ ''.jpg''
      else if date_part \<noteq> [] then ''image '' @ date_part @ ''.jpg''
      else ''image.jpg'')"

text \<open>
  \<open>suggest_filename\<close> (lines 462 to 552). The date part is computed first; a description
  that is \<open>None\<close> raises \<open>TypeError\<close> at line 514 (\<open>description[:80]\<close>), before the request
  is sent. Every exception ends in \<open>return None\<close>.
\<close>

definition suggest_filename ::
    "(string \<Rightarrow> string \<Rightarrow> chat_outcome) \<Rightarrow> string option \<Rightarrow> string option \<Rightarrow> address option
      \<Rightarrow> string option" where
  "suggest_filename chat description date_str location =
     (case date_part_of date_str of
        Inl e \<Rightarrow> None
      | Inr date_part \<Rightarrow>
          (case description of
             None \<Rightarrow> None
           | Some d \<Rightarrow>
               (case chat OLLAMA_TRANSLATION_MODEL (filename_prompt d (location_hint location)) of
                  Raised e \<Rightarrow> None
                | Replied content \<Rightarrow>
                    (let filename_base =
                           (case content of None \<Rightarrow> None | Some t \<Rightarrow> Some (clean_filename_base t))
                     in Some (compose_filename filename_base date_part)))))"


section \<open>Request handlers\<close>

text \<open>
  A response of \<open>do_POST\<close>: \<open>send_error(code, message)\<close>; status 200 with a JSON body; or
  status 500 with the body \<open>{"success": false, "error": str(e)}\<close> of the handler's
  \<open>except Exception\<close>, for the exception \<open>e\<close> given.
\<close>

datatype 'b http_response =
    SendError nat string
  | Ok 'b
  | ServerError py_exn

subsection \<open>POST /translate\<close>

text \<open>
  The request after \<open>json.loads\<close>: the values of \<open>text\<close> and \<open>language\<close>, \<open>None\<close> when the key is
  missing or null (values that are not strings are not modelled); or the message of
  the exception that reading and decoding the body raised.
\<close>

record translate_request =
  req_text :: "string option"
  req_language :: "string option"

datatype 'r request_body =
    Undecodable string
  | Decoded 'r

record translate_response =
  tr_success :: bool
  tr_translation :: "string option"
  tr_language :: string
  tr_model :: string

text \<open>The branch of \<open>do_POST\<close> for \<open>/translate\<close> (lines 566 to 606).\<close>

definition handle_translate ::
    "(string \<Rightarrow> string \<Rightarrow> chat_outcome) \<Rightarrow> translate_request request_body
      \<Rightarrow> translate_response http_response" where
  "handle_translate chat body =
     (case body of
        Undecodable msg \<Rightarrow> ServerError (LibraryError msg)
      | Decoded request_data \<Rightarrow>
          (if \<not> truthy (req_text request_data) \<or> \<not> truthy (req_language request_data)
           then SendError 400 ''Missing text or language''
           else
             (let text = the (req_text request_data);
                  target_language = the (req_language request_data);
                  translation = translate_text chat text target_language
              in Ok \<lparr>tr_success = True, tr_translation = translation,
                     tr_language = target_language, tr_model = OLLAMA_TRANSLATION_MODEL\<rparr>)))"


subsection \<open>POST /upload: the multipart decoder\<close>

text \<open>
  Lines 784 to 790: the loop over the header lines. The first line that contains
  \<open>filename=\<close> gives the filename and ends the loop; \<open>None\<close> when no line does.
\<close>

fun find_filename :: "string list \<Rightarrow> py_exn + string option" where
  "find_filename [] = Inr None"
| "find_filename (line # lines) =
     (if contains ''filename='' line
      then (case split_on ''filename='' line of
              before # filename_part # others \<Rightarrow>
                Inr (Some (strip (strip_chars [SQUOTE] (strip_chars [DQUOTE] (strip filename_part)))))
            | _ \<Rightarrow> Inl IndexError)
      else find_filename lines)"

text \<open>
  Lines 777 to 793: the body of the loop over the parts, on the variables \<open>image_data\<close>
  and \<open>filename\<close>. \<open>decode\<close> stands for \<open>bytes.decode('utf-8', errors='ignore')\<close>.
  Unpacking \<open>part.split(b'\r\n\r\n', 1)\<close> into two names raises \<open>ValueError\<close> when the part
  has no blank line.
\<close>

definition scan_part ::
    "(string \<Rightarrow> string) \<Rightarrow> string \<Rightarrow> string option \<times> string option
      \<Rightarrow> py_exn + (string option \<times> string option)" where
  "scan_part decode part state =
     (case state of (image_data, filename) \<Rightarrow>
        (if contains ''Content-Disposition'' part
         then (if contains ''filename='' part
               then (case split_max1 (CRLF @ CRLF) part of
                       [headers, content] \<Rightarrow>
                         (case find_filename (split_on [LF] (decode headers)) of
                            Inl e \<Rightarrow> Inl e
                          | Inr found \<Rightarrow>
                              (case rsplit_max1 CRLF content of
                                 [] \<Rightarrow> Inl IndexError
                               | piece # pieces \<Rightarrow>
                                   Inr (Some piece,
                                        (case found of None \<Rightarrow> filename | Some f \<Rightarrow> Some f))))
                     | _ \<Rightarrow> Inl ValueError)
               else Inr (image_data, filename))
         else Inr (image_data, filename)))"

text \<open>
  Line 776: the loop \<open>for part in parts\<close>. It has no \<open>break\<close> of its own: every part is
  visited, unless an exception ends it.
\<close>

fun scan_parts ::
    "(string \<Rightarrow> string) \<Rightarrow> string list \<Rightarrow> string option \<times> string option
      \<Rightarrow> py_exn + (string option \<times> string option)" where
  "scan_parts decode [] state = Inr state"
| "scan_parts decode (part # parts) state =
     (case scan_part decode part state of
        Inl e \<Rightarrow> Inl e
      | Inr state' \<Rightarrow> scan_parts decode parts state')"

text \<open>Line 800: quotes and line breaks are removed from the filename.\<close>

definition sanitize_filename :: "string \<Rightarrow> string" where
  "sanitize_filename filename =
     replace [CR] [] (replace [LF] [] (replace [SQUOTE] [] (replace [DQUOTE] [] filename)))"

datatype upload_failure =
    NoImageFile
  | Exception py_exn

text \<open>
  Lines 771 to 800, the upload decoder: the cleaned filename and the payload, the
  refusal \<open>send_error(400, "No image file provided")\<close>, or an exception.
\<close>

definition decode_upload ::
    "(string \<Rightarrow> string) \<Rightarrow> string \<Rightarrow> string \<Rightarrow> upload_failure + (string \<times> string)" where
  "decode_upload decode boundary body =
     (case scan_parts decode (split_on (''--'' @ boundary) body) (None, None) of
        Inl e \<Rightarrow> Inl (Exception e)
      | Inr (image_data, filename) \<Rightarrow>
          (if \<not> truthy image_data \<or> \<not> truthy filename then Inl NoImageFile
           else Inr (sanitize_filename (the filename), the image_data)))"

subsection \<open>POST /upload: the orchestrator\<close>

text \<open>\<open>reverse_geocode\<close> (lines 100 to 135); \<open>fetch\<close> is the network, \<open>'j\<close> the decoded JSON.\<close>

record 'j location_data =
  loc_api_url :: api_url
  loc_api_response :: "string + 'j"
  loc_data :: "'j option"

definition reverse_geocode :: "(api_url \<Rightarrow> string + 'j) \<Rightarrow> real \<Rightarrow> real \<Rightarrow> 'j location_data" where
  "reverse_geocode fetch lat lon =
     (let url = NominatimReverse lat lon
      in case fetch url of
           Inl error_msg \<Rightarrow>
             \<lparr>loc_api_url = url, loc_api_response = Inl error_msg, loc_data = None\<rparr>
         | Inr data \<Rightarrow>
             \<lparr>loc_api_url = url, loc_api_response = Inr data, loc_data = Some data\<rparr>)"

text \<open>
  What the handler takes from outside: the header decoder, the clock (formatted as
  \<open>%Y%m%d_%H%M%S\<close>), the file system (\<open>write_file\<close> gives the message of the exception
  when the write fails), Pillow (on the name and the bytes of the stored file),
  \<open>float\<close> on a text, the float operations of the POI search, and the two network
  services.
\<close>

record ('t, 'j, 'f) upload_env =
  decode_header :: "string \<Rightarrow> string"
  timestamp :: string
  write_file :: "string \<Rightarrow> string \<Rightarrow> string option"
  read_image :: "string \<Rightarrow> string \<Rightarrow> 't image"
  float_of_text :: "string \<Rightarrow> real option"
  float_arith :: "'f float_ops"
  geocode :: "api_url \<Rightarrow> string + 'j"
  poi_fetch :: "api_url \<Rightarrow> 'f poi_upstream"

text \<open>An invocation of one of the three geo enrichment clients.\<close>

datatype client_call =
    ReverseGeocode real real
  | SearchNearbyPoi real real "real option"
  | QueryWikidataPois real real real

record ('t, 'j, 'f) upload_response =
  up_success :: bool
  up_filename :: string
  up_exif :: "'t exif_data"
  up_location :: "'j location_data option"
  up_pois :: "'f poi_result option"
  up_camera_direction :: "real option"
  up_vision :: "unit option"

text \<open>
  Lines 820 to 823: \<open>float(gps_data['GPSImgDirection'])\<close> when the tag is there;
  \<open>float\<close> of a tuple raises \<open>TypeError\<close>, of a text that is no number \<open>ValueError\<close>.
\<close>

definition camera_direction_of ::
    "(string \<Rightarrow> real option) \<Rightarrow> 't exif_data \<Rightarrow> py_exn + real option" where
  "camera_direction_of to_real exif =
     (case GPSData exif of
        None \<Rightarrow> Inr None
      | Some gps_data \<Rightarrow>
          (case gps_data ''GPSImgDirection'' of
             None \<Rightarrow> Inr None
           | Some (GpsNumber r) \<Rightarrow> Inr (Some r)
           | Some (GpsText t) \<Rightarrow>
               (case to_real t of None \<Rightarrow> Inl ValueError | Some r \<Rightarrow> Inr (Some r))
           | Some (GpsBytes t) \<Rightarrow>
               (case to_real t of None \<Rightarrow> Inl ValueError | Some r \<Rightarrow> Inr (Some r))
           | Some (GpsTuple xs) \<Rightarrow> Inl TypeError))"

text \<open>
  Lines 813 to 851: the enrichment of the extracted metadata and the response, with
  the client invocations in the order they are made.
\<close>

definition enrich ::
    "('t, 'j, 'f) upload_env \<Rightarrow> string \<Rightarrow> 't exif_data
      \<Rightarrow> ('t, 'j, 'f) upload_response http_response \<times> client_call list" where
  "enrich env safe_filename exif =
     (case (GPSLatitude exif, GPSLongitude exif) of
        (Some lat, Some lon) \<Rightarrow>
          (case camera_direction_of (float_of_text env) exif of
             Inl e \<Rightarrow> (ServerError e, [])
           | Inr camera_direction \<Rightarrow>
               (Ok \<lparr>up_success = True, up_filename = safe_filename, up_exif = exif,
                    up_location = Some (reverse_geocode (geocode env) lat lon),
                    up_pois = Some (fst (search_nearby_poi (float_arith env) (poi_fetch env)
                                           lat lon camera_direction)),
                    up_camera_direction = camera_direction, up_vision = None\<rparr>,
                [ReverseGeocode lat lon, SearchNearbyPoi lat lon camera_direction]))
      | _ \<Rightarrow>
          (Ok \<lparr>up_success = True, up_filename = safe_filename, up_exif = exif,
               up_location = None, up_pois = None,
               up_camera_direction = None, up_vision = None\<rparr>,
           []))"

text \<open>
  The branch of \<open>do_POST\<close> for \<open>/upload\<close> (lines 755 to 861). \<open>content_type\<close> is the header
  (\<open>None\<close> when it is missing, and \<open>in\<close> raises \<open>TypeError\<close>); \<open>body\<close> is the request body,
  or the exception of reading it.
\<close>

definition handle_upload ::
    "('t, 'j, 'f) upload_env \<Rightarrow> string option \<Rightarrow> string request_body
      \<Rightarrow> ('t, 'j, 'f) upload_response http_response \<times> client_call list" where
  "handle_upload env content_type body =
     (case content_type of
        None \<Rightarrow> (ServerError TypeError, [])
      | Some ct \<Rightarrow>
          (if \<not> contains ''multipart/form-data'' ct
           then (SendError 400 ''Bad Request: Expected multipart/form-data'', [])
           else
             (case split_on ''boundary='' ct of
                before # boundary # others \<Rightarrow>
                  (case body of
                     Undecodable msg \<Rightarrow> (ServerError (LibraryError msg), [])
                   | Decoded bytes \<Rightarrow>
                       (case decode_upload (decode_header env) boundary bytes of
                          Inl NoImageFile \<Rightarrow> (SendError 400 ''No image file provided'', [])
                        | Inl (Exception e) \<Rightarrow> (ServerError e, [])
                        | Inr (filename, image_data) \<Rightarrow>
                            (let safe_filename = timestamp env @ ''_'' @ filename
                             in case write_file env safe_filename image_data of
                                  Some msg \<Rightarrow> (ServerError (LibraryError msg), [])
                                | None \<Rightarrow>
                                    enrich env safe_filename
                                      (extract_exif_data (read_image env safe_filename image_data)))))
              | _ \<Rightarrow> (ServerError IndexError, []))))"


subsection \<open>The terms of the claims about the upload\<close>

text \<open>
  A part is file-bearing when it passes the two tests of lines 777 and 779; it is
  readable unless it is file-bearing and lacks the blank line that line 780 unpacks at.
\<close>

definition file_bearing :: "string \<Rightarrow> bool" where
  "file_bearing part = (contains ''Content-Disposition'' part \<and> contains ''filename='' part)"

definition has_blank_line :: "string \<Rightarrow> bool" where
  "has_blank_line part = contains (CRLF @ CRLF) part"

definition readable_part :: "string \<Rightarrow> bool" where
  "readable_part part = (\<not> file_bearing part \<or> has_blank_line part)"

text \<open>
  The encoder of the round trip: a \<open>multipart/form-data\<close> body with the given boundary.
  Each file is a part with a \<open>Content-Disposition\<close> header whose \<open>filename=\<close> attribute is
  quoted, a \<open>Content-Type\<close> header, a blank line, the payload and a line break; the
  closing delimiter follows the last part.
\<close>

definition header_block :: "string \<Rightarrow> string" where
  "header_block fn =
     CRLF @ ''Content-Disposition: form-data; name='' @ [DQUOTE] @ ''file'' @ [DQUOTE]
     @ ''; filename='' @ [DQUOTE] @ fn @ [DQUOTE] @ CRLF
     @ ''Content-Type: application/octet-stream''"

text \<open>
  The \<open>Content-Disposition\<close> line of the header block as the decoder meets it after
  splitting at line feeds: with its carriage return.
\<close>

definition disposition_line :: "string \<Rightarrow> string" where
  "disposition_line fn =
     ''Content-Disposition: form-data; name='' @ [DQUOTE] @ ''file'' @ [DQUOTE]
     @ ''; filename='' @ [DQUOTE] @ fn @ [DQUOTE, CR]"

definition file_part :: "string \<Rightarrow> string \<Rightarrow> string" where
  "file_part fn payload = header_block fn @ CRLF @ CRLF @ payload @ CRLF"

definition encode_files :: "string \<Rightarrow> (string \<times> string) list \<Rightarrow> string" where
  "encode_files boundary files =
     concat (map (\<lambda>(fn, payload). ''--'' @ boundary @ file_part fn payload) files)
     @ ''--'' @ boundary @ ''--'' @ CRLF"

definition encode_upload :: "string \<Rightarrow> string \<Rightarrow> string \<Rightarrow> string" where
  "encode_upload boundary fn payload = encode_files boundary [(fn, payload)]"

text \<open>
  A form with several parts: files, encoded as above, and fields, given by the text
  between two delimiters. The body lists the parts in order, each after a delimiter,
  and ends with the closing delimiter.
\<close>

datatype form_part =
    FilePart string string
  | FieldPart string

fun render_part :: "form_part \<Rightarrow> string" where
  "render_part (FilePart fn payload) = file_part fn payload"
| "render_part (FieldPart field) = field"

definition encode_form :: "string \<Rightarrow> form_part list \<Rightarrow> string" where
  "encode_form boundary parts =
     concat (map (\<lambda>p. ''--'' @ boundary @ render_part p) parts)
     @ ''--'' @ boundary @ ''--'' @ CRLF"

text \<open>A part that is a file, or a field whose text does not contain \<open>filename=\<close>.\<close>

definition plain_field :: "form_part \<Rightarrow> bool" where
  "plain_field p = (case p of FilePart fn payload \<Rightarrow> True | FieldPart field \<Rightarrow> \<not> contains ''filename='' field)"

text \<open>
  The delimiter of a boundary does not start inside a part (nor in its last bytes
  followed by the delimiter that ends it).
\<close>

definition delimiter_free :: "string \<Rightarrow> string \<Rightarrow> bool" where
  "delimiter_free boundary part =
     (\<not> contains (''--'' @ boundary) (part @ butlast (''--'' @ boundary)))"

text \<open>
  A filename that the decoder returns unchanged: not empty, free of quotes and line
  breaks, without whitespace at either end, and without the text \<open>filename=\<close>.
\<close>

definition plain_filename :: "string \<Rightarrow> bool" where
  "plain_filename fn =
     (fn \<noteq> [] \<and> DQUOTE \<notin> set fn \<and> SQUOTE \<notin> set fn \<and> CR \<notin> set fn \<and> LF \<notin> set fn
      \<and> \<not> is_space (hd fn) \<and> \<not> is_space (last fn) \<and> \<not> contains ''filename='' fn)"

text \<open>
  Concrete inputs: the header decoder on ASCII bytes, where UTF-8 decoding changes
  nothing (on other bytes it is not Python's decoder, and it is not applied to any); a
  body with two files; and an environment whose image has no GPS directory and whose
  network does not answer, so that its float operations are never consulted, with the
  response it leads to.
\<close>

definition decode_ascii :: "string \<Rightarrow> string" where
  "decode_ascii bs = filter (\<lambda>c. (of_char c :: nat) < 128) bs"

text \<open>A form field \<open>caption\<close> with the value \<open>hello\<close>.\<close>

definition caption_field :: string where
  "caption_field =
     CRLF @ ''Content-Disposition: form-data; name='' @ [DQUOTE] @ ''caption'' @ [DQUOTE]
     @ CRLF @ CRLF @ ''hello'' @ CRLF"

definition two_files :: string where
  "two_files = encode_files ''XYZ'' [(''a.jpg'', ''AAA''), (''b.jpg'', ''BBB'')]"

definition upload_env_example :: "(unit, unit, unit) upload_env" where
  "upload_env_example =
     \<lparr>decode_header = decode_ascii, timestamp = ''20251030_080142'',
      write_file = (\<lambda>name bytes. None), read_image = (\<lambda>name bytes. Image () []),
      float_of_text = (\<lambda>t. None),
      float_arith = \<lparr>float_zero = (), rough_meters = (\<lambda>lat lon item_lat item_lon. None),
                     exceeds_ten = (\<lambda>distance. False), round_one = (\<lambda>distance. ())\<rparr>,
      geocode = (\<lambda>url. Inl ''timed out''),
      poi_fetch = (\<lambda>url. Raises ''timed out'')\<rparr>"

definition upload_response_example :: "(unit, unit, unit) upload_response" where
  "upload_response_example =
     \<lparr>up_success = True, up_filename = ''20251030_080142_a.jpg'',
      up_exif = \<lparr>tags = Some (), GPSLatitude = None, GPSLongitude = None,
                  GPSData = None, error = None\<rparr>,
      up_location = None, up_pois = None, up_camera_direction = None, up_vision = None\<rparr>"


subsection \<open>The terms of the claims about the language services\<close>

text \<open>The words a model answer contributes to a filename: none when it has no content.\<close>

definition suggested_words :: "string option \<Rightarrow> string" where
  "suggested_words content = (case content of None \<Rightarrow> [] | Some t \<Rightarrow> clean_filename_base t)"

text \<open>
  Model servers used as concrete inputs: one that refuses the connection, one that
  answers without content, and one that answers with a quoted, capitalised phrase.
\<close>

definition chat_down :: "string \<Rightarrow> string \<Rightarrow> chat_outcome" where
  "chat_down model_name prompt = Raised (URLError ''<urlopen error [Errno 111] Connection refused>'')"

definition chat_no_content :: "string \<Rightarrow> string \<Rightarrow> chat_outcome" where
  "chat_no_content model_name prompt = Replied None"

definition church_answer :: string where
  "church_answer = '' '' @ [DQUOTE] @ ''Red-Brick  Church.'' @ [DQUOTE, LF]"

definition chat_church :: "string \<Rightarrow> string \<Rightarrow> chat_outcome" where
  "chat_church model_name prompt = Replied (Some church_answer)"


section \<open>Properties of the metadata extractor\<close>

lemma gps_data_of_Some_nonempty: "gps_data_of gps_info k = Some v \<Longrightarrow> gps_info \<noteq> []"
  by (auto simp: gps_data_of_def)

text \<open>
  Claim C1. When the GPS directory holds latitude and longitude as degrees, minutes,
  seconds triplets, the extractor's \<open>GPSLatitude\<close> is \<open>d + m/60 + s/3600\<close>, negated exactly
  when the tag \<open>GPSLatitudeRef\<close> is the text \<open>S\<close>, and its \<open>GPSLongitude\<close> is the same
  sum of the longitude triplet, negated exactly when \<open>GPSLongitudeRef\<close> is the text \<open>W\<close>;
  with any other reference, or none, the sum is returned unchanged.
\<close>

theorem extract_exif_data_signed_decimal:
  assumes lat: "gps_data_of gps_info ''GPSLatitude'' = Some (GpsTuple [d, m, s])"
      and lon: "gps_data_of gps_info ''GPSLongitude'' = Some (GpsTuple [d', m', s'])"
  shows "GPSLatitude (extract_exif_data (Image t gps_info)) =
           Some (if gps_data_of gps_info ''GPSLatitudeRef'' = Some (GpsText ''S'')
                 then - (d + m / 60 + s / 3600) else d + m / 60 + s / 3600)
       \<and> GPSLongitude (extract_exif_data (Image t gps_info)) =
           Some (if gps_data_of gps_info ''GPSLongitudeRef'' = Some (GpsText ''W'')
                 then - (d' + m' / 60 + s' / 3600) else d' + m' / 60 + s' / 3600)"
proof -
  have ne: "gps_info \<noteq> []"
    using lat by (rule gps_data_of_Some_nonempty)
  show ?thesis
    using ne lat lon by (simp add: extract_exif_data_def Let_def)
qed

text \<open>
  The fix 48 deg 51 min 29.5 sec with reference \<open>N\<close> and 2 deg 17 min 40 sec with
  reference \<open>W\<close>: the latitude keeps its sign, the longitude is negated.
\<close>

theorem extract_exif_data_signed_decimal_witness:
  "GPSLatitude (extract_exif_data (Image () [(''GPSLatitudeRef'', GpsText ''N''),
       (''GPSLatitude'', GpsTuple [48, 51, 29.5]), (''GPSLongitudeRef'', GpsText ''W''),
       (''GPSLongitude'', GpsTuple [2, 17, 40])])) = Some (48 + 51 / 60 + 29.5 / 3600)
   \<and> GPSLongitude (extract_exif_data (Image () [(''GPSLatitudeRef'', GpsText ''N''),
       (''GPSLatitude'', GpsTuple [48, 51, 29.5]), (''GPSLongitudeRef'', GpsText ''W''),
       (''GPSLongitude'', GpsTuple [2, 17, 40])])) = Some (- (2 + 17 / 60 + 40 / 3600))"
  using extract_exif_data_signed_decimal [of "[(''GPSLatitudeRef'', GpsText ''N''),
       (''GPSLatitude'', GpsTuple [48, 51, 29.5]), (''GPSLongitudeRef'', GpsText ''W''),
       (''GPSLongitude'', GpsTuple [2, 17, 40])]" 48 51 "29.5" 2 17 40 "()"]
  by (simp add: gps_data_of_def)


section \<open>Properties of the sequence operations and of rounding\<close>

lemma startswith_iff: "startswith s p \<longleftrightarrow> (\<exists>t. s = p @ t)"
  by (induction s p rule: startswith.induct) auto

lemma find_first_Some_append: "find_first sep s = Some (a, b) \<Longrightarrow> s = a @ sep @ b"
proof (induction s arbitrary: a)
  case Nil
  then show ?case by (simp split: if_splits)
next
  case (Cons c cs)
  show ?case
  proof (cases "startswith (c # cs) sep")
    case True
    then obtain t where t: "c # cs = sep @ t"
      by (auto simp: startswith_iff)
    from True Cons.prems have "a = []" "b = drop (length sep) (c # cs)"
      by simp_all
    with t show ?thesis by simp
  next
    case False
    with Cons.prems obtain a' where "find_first sep cs = Some (a', b)" "a = c # a'"
      by (auto split: option.splits)
    with Cons.IH [of a'] show ?thesis by simp
  qed
qed

lemma find_first_None_iff: "find_first sep s = None \<longleftrightarrow> \<not> contains sep s"
  by (induction s) (auto split: option.splits)

lemma contains_iff: "contains sub s \<longleftrightarrow> (\<exists>p q. s = p @ sub @ q)"
proof (induction s)
  case Nil
  then show ?case by auto
next
  case (Cons c cs)
  show ?case
  proof
    assume "contains sub (c # cs)"
    then consider "startswith (c # cs) sub" | "contains sub cs" by auto
    then show "\<exists>p q. c # cs = p @ sub @ q"
    proof cases
      case 1
      then obtain t where "c # cs = sub @ t" by (auto simp: startswith_iff)
      then have "c # cs = [] @ sub @ t" by simp
      then show ?thesis by blast
    next
      case 2
      with Cons.IH obtain p q where "cs = p @ sub @ q" by auto
      then have "c # cs = (c # p) @ sub @ q" by simp
      then show ?thesis by blast
    qed
  next
    assume "\<exists>p q. c # cs = p @ sub @ q"
    then obtain p q where pq: "c # cs = p @ sub @ q" by auto
    show "contains sub (c # cs)"
    proof (cases p)
      case Nil
      with pq have "startswith (c # cs) sub" by (auto simp: startswith_iff)
      then show ?thesis by simp
    next
      case (Cons x p')
      with pq have "cs = p' @ sub @ q" by simp
      with Cons.IH have "contains sub cs" by blast
      then show ?thesis by simp
    qed
  qed
qed

lemma split_on_nonempty: "split_on sep s \<noteq> []"
  by (subst split_on.simps) (simp split: option.splits)

lemma takeWhile_neq_append_Cons:
  "takeWhile (\<lambda>x. x \<noteq> c) (ys @ c # zs) = takeWhile (\<lambda>x. x \<noteq> c) ys"
  by (induction ys) auto

text \<open>Splitting at a single character: the last piece is the text after its last occurrence.\<close>

lemma last_split_on_char:
  "last (split_on [c] s) = rev (takeWhile (\<lambda>x. x \<noteq> c) (rev s))"
proof (induction "[c]" s rule: split_on.induct)
  case (1 s)
  show ?case
  proof (cases "find_first [c] s")
    case None
    then have "\<not> contains [c] s" by (simp add: find_first_None_iff)
    then have "c \<notin> set s"
      by (auto simp: contains_iff in_set_conv_decomp)
    then have "takeWhile (\<lambda>x. x \<noteq> c) (rev s) = rev s"
      unfolding takeWhile_eq_all_conv by auto
    then have "rev (takeWhile (\<lambda>x. x \<noteq> c) (rev s)) = s"
      by (simp only: rev_rev_ident)
    moreover from None have "split_on [c] s = [s]"
      by (subst split_on.simps) simp
    ultimately show ?thesis
      by simp
  next
    case (Some ab)
    obtain a b where ab: "ab = (a, b)" by (cases ab)
    with Some have s: "s = a @ [c] @ b"
      by (auto dest: find_first_Some_append)
    from Some ab have f: "find_first [c] s = Some (a, b)"
      by simp
    have ih: "last (split_on [c] b) = rev (takeWhile (\<lambda>x. x \<noteq> c) (rev b))"
      using "1" [of "(a, b)" a b] f by simp
    have "takeWhile (\<lambda>x. x \<noteq> c) (rev s) = takeWhile (\<lambda>x. x \<noteq> c) (rev b)"
      unfolding s by (simp add: takeWhile_neq_append_Cons)
    with ih f show ?thesis
      by (subst split_on.simps) (simp add: split_on_nonempty)
  qed
qed

text \<open>
  Where the first occurrence of a separator lies, and what splitting, replacing and
  stripping do on texts built by concatenation.
\<close>

lemma startswith_append_same: "startswith (p @ t) p"
  by (simp add: startswith_iff)

lemma find_first_prefix: "sep \<noteq> [] \<Longrightarrow> find_first sep (sep @ t) = Some ([], t)"
  by (cases sep) (simp_all add: startswith_iff)

lemma startswith_long:
  "startswith (xs @ ys) sep \<Longrightarrow> length sep \<le> length xs \<Longrightarrow> startswith xs sep"
  by (induction xs sep rule: startswith.induct) auto

lemma find_first_append:
  "\<not> contains sep (a @ butlast sep) \<Longrightarrow> sep \<noteq> [] \<Longrightarrow> find_first sep (a @ sep @ b) = Some (a, b)"
proof (induction a)
  case Nil
  then show ?case by (simp add: find_first_prefix)
next
  case (Cons x a)
  have len: "length sep \<le> length ((x # a) @ butlast sep)"
    using Cons.prems(2) by (cases sep rule: rev_cases) simp_all
  have split: "(x # a) @ sep @ b = ((x # a) @ butlast sep) @ (last sep # b)"
    using Cons.prems(2) by (cases sep rule: rev_cases) simp_all
  have "\<not> startswith ((x # a) @ butlast sep) sep"
    using Cons.prems(1) by simp
  then have ns: "\<not> startswith ((x # a) @ sep @ b) sep"
    unfolding split using startswith_long [OF _ len] by blast
  from Cons.prems have "\<not> contains sep (a @ butlast sep)"
    by simp
  with Cons.IH Cons.prems(2) have "find_first sep (a @ sep @ b) = Some (a, b)"
    by simp
  with ns show ?case
    by simp
qed

lemma contains_skip:
  "c \<notin> set xs \<Longrightarrow> contains (c # sep) (xs @ ys) = contains (c # sep) ys"
  by (induction xs) auto

lemma contains_foreign:
  "c \<notin> set sep \<Longrightarrow> contains sep (xs @ c # ys) \<longleftrightarrow> contains sep xs \<or> contains sep ys"
proof
  assume c: "c \<notin> set sep" and "contains sep (xs @ c # ys)"
  then obtain p q where pq: "xs @ c # ys = p @ sep @ q"
    by (auto simp: contains_iff)
  show "contains sep xs \<or> contains sep ys"
  proof (cases "length p + length sep \<le> length xs")
    case True
    from pq have "take (length xs) (xs @ c # ys) = take (length xs) (p @ sep @ q)"
      by simp
    with True have "xs = p @ sep @ take (length xs - length p - length sep) q"
      by simp
    then show ?thesis
      by (auto simp: contains_iff)
  next
    case False
    have "length xs < length p"
    proof (rule ccontr)
      assume "\<not> length xs < length p"
      with False have le: "length p \<le> length xs" and lt: "length xs < length p + length sep"
        by simp_all
      from pq have "(xs @ c # ys) ! length xs = (p @ sep @ q) ! length xs"
        by simp
      moreover from le lt have d: "length xs - length p < length sep"
        by arith
      ultimately have "c = sep ! (length xs - length p)"
        using le by (simp add: nth_append)
      with d have "c \<in> set sep"
        by simp
      with c show False by simp
    qed
    from pq have "drop (Suc (length xs)) (xs @ c # ys) = drop (Suc (length xs)) (p @ sep @ q)"
      by simp
    with \<open>length xs < length p\<close> have "ys = drop (Suc (length xs)) p @ sep @ q"
      by simp
    then show ?thesis
      by (auto simp: contains_iff)
  qed
next
  assume "c \<notin> set sep" and "contains sep xs \<or> contains sep ys"
  then show "contains sep (xs @ c # ys)"
  proof (elim disjE)
    assume "contains sep xs"
    then obtain p q where "xs = p @ sep @ q" by (auto simp: contains_iff)
    then have "xs @ c # ys = p @ sep @ (q @ c # ys)" by simp
    then show ?thesis unfolding contains_iff by blast
  next
    assume "contains sep ys"
    then obtain p q where "ys = p @ sep @ q" by (auto simp: contains_iff)
    then have "xs @ c # ys = (xs @ c # p) @ sep @ q" by simp
    then show ?thesis unfolding contains_iff by blast
  qed
qed

lemma contains_char: "contains [c] s \<longleftrightarrow> c \<in> set s"
  by (induction s) auto

lemma split_on_absent: "\<not> contains sep s \<Longrightarrow> split_on sep s = [s]"
  by (subst split_on.simps) (simp add: find_first_None_iff [symmetric])

lemma split_on_append:
  "\<not> contains sep (a @ butlast sep) \<Longrightarrow> sep \<noteq> [] \<Longrightarrow>
   split_on sep (a @ sep @ b) = a # split_on sep b"
  by (subst split_on.simps) (simp add: find_first_append)

lemma split_on_char_append:
  "c \<notin> set a \<Longrightarrow> split_on [c] (a @ c # b) = a # split_on [c] b"
  using split_on_append [of "[c]" a b] by (simp add: contains_char)

lemma split_on_char_absent: "c \<notin> set a \<Longrightarrow> split_on [c] a = [a]"
  by (simp add: split_on_absent contains_char)

lemma replace_absent: "\<not> contains old s \<Longrightarrow> replace old new s = s"
  by (subst replace.simps) (simp add: find_first_None_iff [symmetric])

lemma sanitize_filename_clean:
  "DQUOTE \<notin> set f \<Longrightarrow> SQUOTE \<notin> set f \<Longrightarrow> LF \<notin> set f \<Longrightarrow> CR \<notin> set f \<Longrightarrow>
   sanitize_filename f = f"
  by (simp add: sanitize_filename_def replace_absent contains_char)

lemma contains_piece:
  "q \<in> set (split_on sep s) \<Longrightarrow> contains x q \<Longrightarrow> contains x s"
proof (induction sep s rule: split_on.induct)
  case (1 sep s)
  show ?case
  proof (cases "sep = [] \<or> find_first sep s = None")
    case True
    then have "split_on sep s = [s]"
      by (subst split_on.simps) auto
    with "1.prems" show ?thesis
      by simp
  next
    case False
    then obtain a b where f: "find_first sep s = Some (a, b)" and ne: "sep \<noteq> []"
      by auto
    then have s: "s = a @ sep @ b"
      by (auto dest: find_first_Some_append)
    from "1.prems"(1) f ne have "q = a \<or> q \<in> set (split_on sep b)"
      by (subst (asm) split_on.simps) simp
    then show ?thesis
    proof
      assume "q = a"
      with "1.prems"(2) obtain u v where "a = u @ x @ v"
        by (auto simp: contains_iff)
      with s have "s = u @ x @ (v @ sep @ b)" by simp
      then show ?thesis unfolding contains_iff by blast
    next
      assume "q \<in> set (split_on sep b)"
      with "1.IH" [of "(a, b)" a b] ne f "1.prems"(2) have "contains x b"
        by simp
      then obtain u v where "b = u @ x @ v"
        by (auto simp: contains_iff)
      with s have "s = (a @ sep @ u) @ x @ v" by simp
      then show ?thesis unfolding contains_iff by blast
    qed
  qed
qed

lemma strip_by_untouched:
  "s \<noteq> [] \<Longrightarrow> \<not> P (hd s) \<Longrightarrow> \<not> P (last s) \<Longrightarrow> strip_by P s = s"
proof -
  assume ne: "s \<noteq> []" and h: "\<not> P (hd s)" and l: "\<not> P (last s)"
  from ne h have "dropWhile P s = s"
    by (cases s) simp_all
  moreover from ne l have "dropWhile P (rev s) = rev s"
    by (cases s rule: rev_cases) simp_all
  ultimately show ?thesis
    by (simp add: strip_by_def)
qed

lemma strip_by_empty: "strip_by P [] = []"
  by (simp add: strip_by_def)

lemma strip_by_wrapped:
  "P a \<Longrightarrow> P b \<Longrightarrow> s \<noteq> [] \<Longrightarrow> \<not> P (hd s) \<Longrightarrow> \<not> P (last s) \<Longrightarrow>
   strip_by P (a # s @ [b]) = s"
proof -
  assume a: "P a" and b: "P b" and ne: "s \<noteq> []" and h: "\<not> P (hd s)" and l: "\<not> P (last s)"
  from ne h have "dropWhile P (s @ [b]) = s @ [b]"
    by (cases s) simp_all
  moreover from ne l have "dropWhile P (rev s) = rev s"
    by (cases s rule: rev_cases) simp_all
  ultimately show ?thesis
    using a b by (simp add: strip_by_def)
qed

text \<open>Rounding is monotone and moves a number by at most half a unit of the last digit.\<close>

lemma round_half_even_mono: "x \<le> y \<Longrightarrow> round_half_even x \<le> round_half_even y"
proof -
  assume xy: "x \<le> y"
  have lo: "\<And>z. \<lfloor>z\<rfloor> \<le> round_half_even z"
    by (simp add: round_half_even_def Let_def)
  have hi: "\<And>z. round_half_even z \<le> \<lfloor>z\<rfloor> + 1"
    by (simp add: round_half_even_def Let_def)
  from xy have fl: "\<lfloor>x\<rfloor> \<le> \<lfloor>y\<rfloor>" by (rule floor_mono)
  show ?thesis
  proof (cases "\<lfloor>x\<rfloor> = \<lfloor>y\<rfloor>")
    case True
    with xy have "x - of_int \<lfloor>x\<rfloor> \<le> y - of_int \<lfloor>y\<rfloor>" by simp
    with True show ?thesis
      by (auto simp: round_half_even_def Let_def)
  next
    case False
    with fl have "\<lfloor>x\<rfloor> + 1 \<le> \<lfloor>y\<rfloor>" by simp
    with hi [of x] lo [of y] show ?thesis by linarith
  qed
qed

lemma py_round_mono: "x \<le> y \<Longrightarrow> py_round x n \<le> py_round y n"
  by (simp add: py_round_def divide_right_mono round_half_even_mono mult_right_mono)

lemma round_half_even_near: "\<bar>of_int (round_half_even y) - y\<bar> \<le> 1 / 2"
proof -
  define d where "d = y - of_int \<lfloor>y\<rfloor>"
  have d: "0 \<le> d" "d < 1"
    unfolding d_def by linarith+
  have y: "y = of_int \<lfloor>y\<rfloor> + d"
    by (simp add: d_def)
  consider "d < 1 / 2" | "1 / 2 < d" | "d = 1 / 2"
    by linarith
  then show ?thesis
  proof cases
    case 1
    then have "round_half_even y = \<lfloor>y\<rfloor>"
      by (simp add: round_half_even_def Let_def d_def)
    with 1 d show ?thesis
      by (simp add: d_def)
  next
    case 2
    then have "round_half_even y = \<lfloor>y\<rfloor> + 1"
      by (simp add: round_half_even_def Let_def d_def)
    with 2 d show ?thesis
      by (simp add: d_def)
  next
    case 3
    then have "round_half_even y = \<lfloor>y\<rfloor> \<or> round_half_even y = \<lfloor>y\<rfloor> + 1"
      by (simp add: round_half_even_def Let_def d_def)
    with 3 show ?thesis
      by (auto simp: d_def)
  qed
qed

lemma py_round_near: "\<bar>py_round x n - x\<bar> \<le> 1 / 2 / 10 ^ n"
proof -
  have "py_round x n - x = (of_int (round_half_even (x * 10 ^ n)) - x * 10 ^ n) / 10 ^ n"
    by (simp add: py_round_def field_simps)
  then have "\<bar>py_round x n - x\<bar> = \<bar>of_int (round_half_even (x * 10 ^ n)) - x * 10 ^ n\<bar> / 10 ^ n"
    by (simp add: abs_divide)
  also have "\<dots> \<le> 1 / 2 / 10 ^ n"
    by (rule divide_right_mono [OF round_half_even_near]) simp
  finally show ?thesis .
qed


section \<open>Properties of the nearby POI search\<close>

lemma to_float_coord: "convertible j \<Longrightarrow> to_float j = Inr (coord j)"
  by (cases j) (simp_all add: coord_def convertible_def)



text \<open>
  A candidate whose distance leaves the range of the floats ends the loop with
  \<open>OverflowError\<close>, whatever follows it.
\<close>

lemma collect_pois_overflow:
  "float_of ops (cand_lat c) = Inr item_lat \<Longrightarrow> float_of ops (cand_lon c) = Inr item_lon \<Longrightarrow>
   rough_meters ops lat lon item_lat item_lon = None \<Longrightarrow>
   collect_pois ops lat lon (c # cs) = Inl OverflowError"
  by simp




text \<open>
  Claim C9. The dictionary \<open>search_nearby_poi\<close> returns does not depend on the bearing:
  two runs on the same coordinates and the same network return equal dictionaries,
  whatever the two \<open>direction\<close> arguments are (only the printed lines differ).
\<close>

theorem search_nearby_poi_ignores_direction:
  "fst (search_nearby_poi ops fetch lat lon d1) = fst (search_nearby_poi ops fetch lat lon d2)"
  by (simp add: search_nearby_poi_def Let_def split: poi_upstream.split sum.split)


section \<open>Properties of the Wikidata proximity query\<close>

lemma collect_places_map:
  "list_all (\<lambda>b. convertible (bind_distance b)) bs \<Longrightarrow>
   collect_places bs = Inr (map (\<lambda>b. place_of_binding b (binding_distance b)) bs)"
  by (induction bs) (simp_all add: to_float_coord binding_distance_def)

lemma wikidata_id_place_of_binding:
  "wikidata_id (place_of_binding b d) = after_last_slash (binding_uri b)"
  by (simp add: place_of_binding_def Let_def binding_uri_def after_last_slash_def
      last_split_on_char split: option.split)

lemma sorted_map_py_round:
  "sorted (map f xs) \<Longrightarrow> sorted (map (\<lambda>x. py_round (f x) n) xs)"
  by (induction xs) (auto simp: py_round_mono)

text \<open>
  Claim C8, as the code has it. When the endpoint answers with bindings whose distances
  \<open>float\<close> accepts, the places stand in the order of the bindings, each with its distance
  rounded to 3 decimal places as \<open>distance_km\<close>; so if the bindings are ascending by
  distance (as \<open>ORDER BY ?distance\<close> asks of the endpoint), the places are ascending by
  \<open>distance_km\<close>, ties allowed. Each place's \<open>wikidata_id\<close> is the text after the last
  slash of its entity URI, and its \<open>wikidata_url\<close> is
  \<open>https://www.wikidata.org/wiki/\<close> followed by that id, or empty when the id is empty.
\<close>

theorem query_wikidata_pois_order_and_id:
  assumes run: "run (AroundQuery lon lat radius_km) = Bindings bs"
      and conv: "list_all (\<lambda>b. convertible (bind_distance b)) bs"
  shows "map distance_km (places (query_wikidata_pois True run lat lon radius_km)) =
           map (\<lambda>b. py_round (binding_distance b) 3) bs
       \<and> (sorted (map binding_distance bs) \<longrightarrow>
            sorted (map distance_km (places (query_wikidata_pois True run lat lon radius_km))))
       \<and> map wikidata_id (places (query_wikidata_pois True run lat lon radius_km)) =
           map (\<lambda>b. after_last_slash (binding_uri b)) bs
       \<and> list_all (\<lambda>p. wikidata_url p =
              (if wikidata_id p = [] then [] else ''https://www.wikidata.org/wiki/'' @ wikidata_id p))
            (places (query_wikidata_pois True run lat lon radius_km))"
proof -
  have pl: "places (query_wikidata_pois True run lat lon radius_km) =
      map (\<lambda>b. place_of_binding b (binding_distance b)) bs"
    by (simp add: query_wikidata_pois_def Let_def run collect_places_map [OF conv])
  have km: "map distance_km (places (query_wikidata_pois True run lat lon radius_km)) =
           map (\<lambda>b. py_round (binding_distance b) 3) bs"
    by (simp add: pl place_of_binding_def Let_def)
  have srt: "sorted (map binding_distance bs) \<longrightarrow>
            sorted (map distance_km (places (query_wikidata_pois True run lat lon radius_km)))"
    unfolding km by (simp add: sorted_map_py_round)
  have ids: "map wikidata_id (places (query_wikidata_pois True run lat lon radius_km)) =
           map (\<lambda>b. after_last_slash (binding_uri b)) bs"
    by (simp add: pl wikidata_id_place_of_binding)
  have urls: "list_all (\<lambda>p. wikidata_url p =
              (if wikidata_id p = [] then [] else ''https://www.wikidata.org/wiki/'' @ wikidata_id p))
            (places (query_wikidata_pois True run lat lon radius_km))"
    by (simp add: pl list_all_iff place_of_binding_def Let_def)
  from km srt ids urls show ?thesis
    by blast
qed

text \<open>Two rows of the entity \<open>Q64\<close> at 0.5 km.\<close>

theorem query_wikidata_pois_order_and_id_witness:
  "map distance_km (places (query_wikidata_pois True endpoint_two_rows 52.5 13.4 1)) = [0.5, 0.5]
   \<and> sorted (map distance_km (places (query_wikidata_pois True endpoint_two_rows 52.5 13.4 1)))
   \<and> map wikidata_id (places (query_wikidata_pois True endpoint_two_rows 52.5 13.4 1)) = [''Q64'', ''Q64'']"
  using query_wikidata_pois_order_and_id [of endpoint_two_rows "13.4" "52.5" 1 "[row_museum, row_building]"]
  by (simp add: endpoint_two_rows_def convertible_def row_museum_def row_building_def
      binding_distance_def coord_def py_round_def round_half_even_def Let_def
      binding_uri_def after_last_slash_def)

text \<open>
  The claim as stated fails: on an answer that is ascending by distance, the places are
  not strictly ascending by \<open>distance_km\<close>.
\<close>

theorem query_wikidata_pois_ties_counterexample:
  "sorted (map binding_distance [row_museum, row_building])
   \<and> \<not> sorted_wrt (<) (map distance_km (places (query_wikidata_pois True endpoint_two_rows 52.5 13.4 1)))"
  by (simp add: query_wikidata_pois_def endpoint_two_rows_def Let_def row_museum_def row_building_def
      binding_distance_def coord_def place_of_binding_def)


section \<open>Properties of the description and language services\<close>

text \<open>
  Claim C6, as the code has it. When the \<open>try\<close> block of \<open>analyze_image_with_ollama\<close>
  raises, the function returns a record with no description, the configured model name
  and an error text: for a \<open>URLError\<close> the exception's message after a fixed prefix, for
  any other exception the bare message. The error text is empty exactly when the
  exception is not a \<open>URLError\<close> and its message is empty.
\<close>

theorem analyze_image_with_ollama_failure:
  "vision_description (analyze_image_with_ollama (VisionRaised e)) = None
   \<and> vision_model (analyze_image_with_ollama (VisionRaised e)) = OLLAMA_MODEL
   \<and> vision_error (analyze_image_with_ollama (VisionRaised e)) =
       Some (case e of
               URLError msg \<Rightarrow> ''Failed to connect to Ollama. Is it running? Error: '' @ msg
             | OtherException msg \<Rightarrow> msg)
   \<and> (vision_error (analyze_image_with_ollama (VisionRaised e)) = Some [] \<longleftrightarrow> e = OtherException [])"
  by (cases e) (simp_all add: analyze_image_with_ollama_def)

text \<open>
  The claim as stated fails: an exception other than \<open>URLError\<close> whose message is empty
  gives an empty error text.
\<close>

theorem analyze_image_with_ollama_empty_message_counterexample:
  "vision_error (analyze_image_with_ollama (VisionRaised (OtherException []))) = Some []"
  by (simp add: analyze_image_with_ollama_def)

lemma date_part_example: "date_part_of (Some ''2025-10-30 08-01-42'') = Inr ''2025-10-30''"
  by (simp add: date_part_of_def split_ws_def is_space_def)

lemma clean_example: "clean_filename_base church_answer = ''red brick church''"
  by (simp add: church_answer_def clean_filename_base_def Let_def strip_def strip_by_def is_space_def lower_def lower_char_def
     replace.simps strip_chars_def split_ws_def DQUOTE_def SQUOTE_def LF_def)

text \<open>
  Claim C7, as the code has it. For a description that is a string and a date whose date
  part is \<open>dp\<close>: when the model call returns, the suggested filename is the cleaned words,
  a space, the date part and \<open>.jpg\<close> if both are there, the words and \<open>.jpg\<close> if only words
  are there, \<open>image\<close>, a space, the date part and \<open>.jpg\<close> if only the date part is there,
  and \<open>image.jpg\<close> if neither is; when the model call raises, the result is \<open>None\<close> and
  no filename is composed; and a description that is \<open>None\<close> gives \<open>None\<close> as well.
\<close>

theorem suggest_filename_composition:
  assumes dp: "date_part_of date_str = Inr dp"
  shows "(chat OLLAMA_TRANSLATION_MODEL (filename_prompt d (location_hint location)) = Replied content \<longrightarrow>
            suggest_filename chat (Some d) date_str location =
              Some (if suggested_words content \<noteq> [] \<and> dp \<noteq> []
                      then suggested_words content @ '' '' @ dp @ ''.jpg''
                    else if suggested_words content \<noteq> [] then suggested_words content @ ''.jpg''
                    else if dp \<noteq> [] then ''image '' @ dp @ ''.jpg''
                    else ''image.jpg''))
       \<and> (chat OLLAMA_TRANSLATION_MODEL (filename_prompt d (location_hint location)) = Raised e \<longrightarrow>
            suggest_filename chat (Some d) date_str location = None)
       \<and> suggest_filename chat None date_str location = None"
  by (cases content)
     (simp_all add: suggest_filename_def dp compose_filename_def truthy_def suggested_words_def Let_def)

text \<open>
  An answer without content, with and without a date; an answer with words and a date;
  a refused connection.
\<close>

theorem suggest_filename_composition_witness:
  "suggest_filename chat_no_content (Some ''a church'') (Some ''2025-10-30 08-01-42'') None
     = Some ''image 2025-10-30.jpg''
   \<and> suggest_filename chat_no_content (Some ''a church'') None None = Some ''image.jpg''
   \<and> suggest_filename chat_church (Some ''a church'') (Some ''2025-10-30 08-01-42'') None
     = Some ''red brick church 2025-10-30.jpg''
   \<and> suggest_filename chat_down (Some ''a church'') (Some ''2025-10-30 08-01-42'') None = None"
  using suggest_filename_composition [OF date_part_example, of chat_no_content "''a church''" None None]
    suggest_filename_composition [of None "[]" chat_no_content "''a church''" None None]
    suggest_filename_composition [OF date_part_example, of chat_church "''a church''" None
      "Some church_answer"]
    suggest_filename_composition [OF date_part_example, of chat_down "''a church''" None _
      "URLError ''<urlopen error [Errno 111] Connection refused>''"]
  by (simp add: chat_no_content_def chat_church_def chat_down_def suggested_words_def clean_example
      date_part_of_def)

text \<open>
  The claim as stated fails: when generation fails because the call raises, or because
  the description is \<open>None\<close>, the date \<open>2025-10-30 08-01-42\<close> does not give
  \<open>image 2025-10-30.jpg\<close>; the result is \<open>None\<close>.
\<close>

theorem suggest_filename_failure_counterexample:
  "suggest_filename chat_down (Some ''a church'') (Some ''2025-10-30 08-01-42'') None = None
   \<and> suggest_filename chat_no_content None (Some ''2025-10-30 08-01-42'') None = None"
  by (simp add: suggest_filename_def chat_down_def date_part_example)


section \<open>Properties of the request handlers\<close>

text \<open>
  Claim C10. For a \<open>/translate\<close> request whose body carries a non-empty text and a
  non-empty language, the handler answers with status 200 and \<open>success\<close> true, whatever
  the translation call does; when that call raises, the \<open>translation\<close> field is \<open>None\<close>
  while \<open>success\<close> stays true.
\<close>

theorem handle_translate_success_flag:
  assumes "req_text r = Some t" and "t \<noteq> []" and "req_language r = Some l" and "l \<noteq> []"
  shows "handle_translate chat (Decoded r) =
           Ok \<lparr>tr_success = True, tr_translation = translate_text chat t l,
               tr_language = l, tr_model = OLLAMA_TRANSLATION_MODEL\<rparr>
       \<and> (chat OLLAMA_TRANSLATION_MODEL (translation_prompt t l) = Raised e \<longrightarrow>
            translate_text chat t l = None)"
  using assms by (simp add: handle_translate_def truthy_def translate_text_def Let_def)

text \<open>The request \<open>Hello\<close> to German against a model server that refuses the connection.\<close>

theorem handle_translate_success_flag_witness:
  "handle_translate chat_down (Decoded \<lparr>req_text = Some ''Hello'', req_language = Some ''German''\<rparr>) =
     Ok \<lparr>tr_success = True, tr_translation = None,
         tr_language = ''German'', tr_model = OLLAMA_TRANSLATION_MODEL\<rparr>"
  using handle_translate_success_flag [of "\<lparr>req_text = Some ''Hello'', req_language = Some ''German''\<rparr>"
      "''Hello''" "''German''" chat_down "URLError ''<urlopen error [Errno 111] Connection refused>''"]
  by (simp add: chat_down_def)


section \<open>Properties of the upload decoder\<close>

lemmas char_defs = CR_def LF_def DQUOTE_def SQUOTE_def CRLF_def

lemma split_on_two:
  "contains sep s \<Longrightarrow> sep \<noteq> [] \<Longrightarrow> \<exists>a b rest. split_on sep s = a # b # rest"
proof -
  assume c: "contains sep s" and ne: "sep \<noteq> []"
  then obtain a t where f: "find_first sep s = Some (a, t)"
    by (cases "find_first sep s") (auto simp: find_first_None_iff)
  obtain b rest where "split_on sep t = b # rest"
    using split_on_nonempty [of sep t] by (cases "split_on sep t") auto
  with f ne have "split_on sep s = a # b # rest"
    by (subst split_on.simps) simp
  then show ?thesis by blast
qed

lemma find_filename_returns: "\<exists>found. find_filename lines = Inr found"
proof (induction lines)
  case Nil
  then show ?case by simp
next
  case (Cons line lines)
  show ?case
  proof (cases "contains ''filename='' line")
    case True
    then obtain a b rest where "split_on ''filename='' line = a # b # rest"
      using split_on_two [of "''filename=''" line] by auto
    with True show ?thesis by simp
  next
    case False
    with Cons show ?thesis by simp
  qed
qed

lemma rsplit_max1_nonempty: "rsplit_max1 sep s \<noteq> []"
  by (simp add: rsplit_max1_def split: option.split)

lemma split_max1_two:
  "contains sep s \<Longrightarrow> \<exists>h c. split_max1 sep s = [h, c]"
  by (cases "find_first sep s") (auto simp: split_max1_def find_first_None_iff)

lemma split_max1_one:
  "\<not> contains sep s \<Longrightarrow> split_max1 sep s = [s]"
  by (simp add: split_max1_def find_first_None_iff [symmetric])

lemma scan_part_skip: "\<not> file_bearing part \<Longrightarrow> scan_part decode part state = Inr state"
  by (cases state) (auto simp: scan_part_def file_bearing_def)

lemma scan_part_readable:
  "readable_part part \<Longrightarrow> \<exists>state'. scan_part decode part state = Inr state'"
proof (cases "file_bearing part")
  case False
  then show ?thesis by (simp add: scan_part_skip)
next
  case True
  assume "readable_part part"
  with True have "contains (CRLF @ CRLF) part"
    by (simp add: readable_part_def has_blank_line_def)
  then obtain h c where hc: "split_max1 (CRLF @ CRLF) part = [h, c]"
    using split_max1_two by blast
  obtain found where fd: "find_filename (split_on [LF] (decode h)) = Inr found"
    using find_filename_returns by blast
  obtain piece pieces where rs: "rsplit_max1 CRLF c = piece # pieces"
    using rsplit_max1_nonempty [of CRLF c] by (cases "rsplit_max1 CRLF c") auto
  from True hc fd rs show ?thesis
    by (cases state) (simp add: scan_part_def file_bearing_def)
qed

lemma scan_part_independent:
  "scan_part decode part (None, None) = Inr (Some payload, Some f) \<Longrightarrow> file_bearing part \<Longrightarrow>
   scan_part decode part state = Inr (Some payload, Some f)"
  by (cases state)
     (auto simp: scan_part_def file_bearing_def split: list.splits sum.splits option.splits)

lemma scan_parts_append:
  "scan_parts decode (xs @ ys) state =
     (case scan_parts decode xs state of
        Inl e \<Rightarrow> Inl e
      | Inr state' \<Rightarrow> scan_parts decode ys state')"
  by (induction xs arbitrary: state) (simp_all split: sum.split)

lemma scan_parts_readable:
  "list_all readable_part parts \<Longrightarrow> \<exists>state'. scan_parts decode parts state = Inr state'"
proof (induction parts arbitrary: state)
  case Nil
  then show ?case by simp
next
  case (Cons p ps)
  then obtain s1 where s1: "scan_part decode p state = Inr s1"
    using scan_part_readable [of p decode state] by auto
  from Cons.prems have "list_all readable_part ps"
    by simp
  from Cons.IH [OF this, of s1] obtain s2 where "scan_parts decode ps s1 = Inr s2"
    by blast
  with s1 show ?case by simp
qed

lemma scan_parts_no_file:
  "list_all (\<lambda>q. \<not> file_bearing q) parts \<Longrightarrow> scan_parts decode parts state = Inr state"
  by (induction parts) (simp_all add: scan_part_skip)

lemma decode_upload_of_parts:
  assumes parts: "split_on (''--'' @ boundary) body = before @ part # after"
      and before: "list_all readable_part before"
      and fb: "file_bearing part"
      and sp: "scan_part decode part (None, None) = Inr (Some payload, Some f)"
      and after: "list_all (\<lambda>q. \<not> file_bearing q) after"
      and ne: "f \<noteq> []" "payload \<noteq> []"
  shows "decode_upload decode boundary body = Inr (sanitize_filename f, payload)"
proof -
  obtain s1 where s1: "scan_parts decode before (None, None) = Inr s1"
    using scan_parts_readable [OF before] by blast
  have s2: "scan_part decode part s1 = Inr (Some payload, Some f)"
    using sp fb by (rule scan_part_independent)
  have "scan_parts decode (before @ part # after) (None, None) = Inr (Some payload, Some f)"
    by (simp add: scan_parts_append s1 s2 scan_parts_no_file [OF after])
  with parts ne show ?thesis
    by (simp add: decode_upload_def truthy_def)
qed

lemma contains_intro: "contains sub (p @ sub @ q)"
  unfolding contains_iff by blast

lemma file_part_file_bearing: "file_bearing (file_part fn payload)"
proof -
  have "file_part fn payload = CRLF @ ''Content-Disposition'' @
      ('': form-data; name='' @ [DQUOTE] @ ''file'' @ [DQUOTE]
       @ ''; filename='' @ [DQUOTE] @ fn @ [DQUOTE] @ CRLF
       @ ''Content-Type: application/octet-stream'' @ CRLF @ CRLF @ payload @ CRLF)"
    by (simp add: file_part_def header_block_def)
  then have cd: "contains ''Content-Disposition'' (file_part fn payload)"
    by (simp only: contains_intro)
  have "file_part fn payload =
      (CRLF @ ''Content-Disposition: form-data; name='' @ [DQUOTE] @ ''file'' @ [DQUOTE] @ ''; '')
      @ ''filename='' @
      ([DQUOTE] @ fn @ [DQUOTE] @ CRLF
       @ ''Content-Type: application/octet-stream'' @ CRLF @ CRLF @ payload @ CRLF)"
    by (simp add: file_part_def header_block_def)
  then have "contains ''filename='' (file_part fn payload)"
    by (simp only: contains_intro)
  with cd show ?thesis
    by (simp add: file_bearing_def)
qed

lemma header_block_no_blank_line:
  "CR \<notin> set fn \<Longrightarrow> \<not> contains (CRLF @ CRLF) (header_block fn @ butlast (CRLF @ CRLF))"
  unfolding char_defs header_block_def by (simp add: contains_skip)

lemma split_max1_file_part:
  "CR \<notin> set fn \<Longrightarrow>
   split_max1 (CRLF @ CRLF) (file_part fn payload) = [header_block fn, payload @ CRLF]"
proof -
  assume "CR \<notin> set fn"
  then have nb: "\<not> contains (CRLF @ CRLF) (header_block fn @ butlast (CRLF @ CRLF))"
    by (rule header_block_no_blank_line)
  have ne: "CRLF @ CRLF \<noteq> []"
    by (simp add: CRLF_def)
  have "find_first (CRLF @ CRLF) (header_block fn @ (CRLF @ CRLF) @ (payload @ CRLF))
      = Some (header_block fn, payload @ CRLF)"
    using nb ne by (rule find_first_append)
  then show ?thesis
    by (simp add: split_max1_def file_part_def)
qed

lemma header_block_lines:
  "LF \<notin> set fn \<Longrightarrow>
   split_on [LF] (header_block fn) =
     [[CR], disposition_line fn, ''Content-Type: application/octet-stream'']"
proof -
  assume fn: "LF \<notin> set fn"
  have hb: "header_block fn =
      [CR] @ LF # (disposition_line fn @ LF # ''Content-Type: application/octet-stream'')"
    by (simp add: header_block_def disposition_line_def CRLF_def)
  have 1: "LF \<notin> set [CR]"
    by (simp add: char_defs)
  have 2: "LF \<notin> set (disposition_line fn)"
    using fn by (auto simp: disposition_line_def char_defs)
  have 3: "LF \<notin> set ''Content-Type: application/octet-stream''"
    by (simp add: char_defs)
  show ?thesis
    unfolding hb
    by (simp only: split_on_char_append [OF 1] split_on_char_append [OF 2]
        split_on_char_absent [OF 3])
qed

lemma disposition_line_pieces:
  "\<not> contains ''filename='' fn \<Longrightarrow>
   split_on ''filename='' (disposition_line fn) =
     [''Content-Disposition: form-data; name='' @ [DQUOTE] @ ''file'' @ [DQUOTE] @ ''; '',
      DQUOTE # fn @ [DQUOTE, CR]]"
proof -
  assume fn: "\<not> contains ''filename='' fn"
  have dl: "disposition_line fn =
      (''Content-Disposition: form-data; name='' @ [DQUOTE] @ ''file'' @ [DQUOTE] @ ''; '')
      @ ''filename='' @ (DQUOTE # fn @ [DQUOTE, CR])"
    by (simp add: disposition_line_def)
  have a: "\<not> contains ''filename=''
      ((''Content-Disposition: form-data; name='' @ [DQUOTE] @ ''file'' @ [DQUOTE] @ ''; '')
       @ butlast ''filename='')"
    by (simp add: char_defs)
  have x: "contains ''filename='' (fn @ DQUOTE # [CR]) \<longleftrightarrow>
      contains ''filename='' fn \<or> contains ''filename='' [CR]"
    by (rule contains_foreign) (simp add: char_defs)
  have y: "contains ''filename='' ([] @ DQUOTE # (fn @ DQUOTE # [CR])) \<longleftrightarrow>
      contains ''filename='' [] \<or> contains ''filename='' (fn @ DQUOTE # [CR])"
    by (rule contains_foreign) (simp add: char_defs)
  have "\<not> contains ''filename='' [CR]"
    by (simp add: char_defs)
  with x y fn have b: "\<not> contains ''filename='' (DQUOTE # fn @ [DQUOTE, CR])"
    by simp
  have ne: "''filename='' \<noteq> []"
    by simp
  show ?thesis
    unfolding dl
    by (simp only: split_on_append [OF a ne] split_on_absent [OF b])
qed

lemma strip_filename_part:
  assumes "plain_filename fn"
  shows "strip (strip_chars [SQUOTE] (strip_chars [DQUOTE] (strip (DQUOTE # fn @ [DQUOTE, CR])))) = fn"
proof -
  from assms have ne: "fn \<noteq> []" and dq: "DQUOTE \<notin> set fn" and sq: "SQUOTE \<notin> set fn"
    and sp: "\<not> is_space (hd fn)" "\<not> is_space (last fn)"
    by (simp_all add: plain_filename_def)
  from ne dq have hdq: "hd fn \<noteq> DQUOTE" "last fn \<noteq> DQUOTE"
    by (metis hd_in_set, metis last_in_set)
  from ne sq have hsq: "hd fn \<noteq> SQUOTE" "last fn \<noteq> SQUOTE"
    by (metis hd_in_set, metis last_in_set)
  have "strip_by is_space (DQUOTE # (fn @ [DQUOTE]) @ [CR]) = DQUOTE # fn @ [DQUOTE]"
    by (simp add: strip_by_def is_space_def char_defs)
  then have 1: "strip (DQUOTE # fn @ [DQUOTE, CR]) = DQUOTE # fn @ [DQUOTE]"
    by (simp add: strip_def)
  have 2: "strip_chars [DQUOTE] (DQUOTE # fn @ [DQUOTE]) = fn"
    unfolding strip_chars_def using ne hdq
    by (intro strip_by_wrapped) simp_all
  have 3: "strip_chars [SQUOTE] fn = fn"
    unfolding strip_chars_def using ne hsq
    by (intro strip_by_untouched) simp_all
  have 4: "strip fn = fn"
    unfolding strip_def using ne sp
    by (intro strip_by_untouched)
  show ?thesis
    by (simp only: 1 2 3 4)
qed

lemma find_filename_header_block:
  assumes "plain_filename fn"
  shows "find_filename (split_on [LF] (header_block fn)) = Inr (Some fn)"
proof -
  from assms have lf: "LF \<notin> set fn" and nf: "\<not> contains ''filename='' fn"
    by (simp_all add: plain_filename_def)
  have c1: "\<not> contains ''filename='' [CR]"
    by (simp add: char_defs)
  have "disposition_line fn =
      (''Content-Disposition: form-data; name='' @ [DQUOTE] @ ''file'' @ [DQUOTE] @ ''; '')
      @ ''filename='' @ (DQUOTE # fn @ [DQUOTE, CR])"
    by (simp add: disposition_line_def)
  then have c2: "contains ''filename='' (disposition_line fn)"
    by (simp only: contains_intro)
  show ?thesis
    by (simp add: header_block_lines [OF lf] c1 c2 disposition_line_pieces [OF nf]
        strip_filename_part [OF assms])
qed

lemma rsplit_max1_trailing: "rsplit_max1 CRLF (payload @ CRLF) = [payload, []]"
proof -
  have "find_first (rev CRLF) (rev CRLF @ rev payload) = Some ([], rev payload)"
    by (rule find_first_prefix) (simp add: CRLF_def)
  then show ?thesis
    by (simp add: rsplit_max1_def find_last_def)
qed

lemma scan_part_file_part:
  assumes fn: "plain_filename fn"
      and dec: "decode (header_block fn) = header_block fn"
  shows "scan_part decode (file_part fn payload) (None, None) = Inr (Some payload, Some fn)"
proof -
  from fn have cr: "CR \<notin> set fn"
    by (simp add: plain_filename_def)
  have fb: "file_bearing (file_part fn payload)"
    by (rule file_part_file_bearing)
  then show ?thesis
    by (simp add: scan_part_def file_bearing_def split_max1_file_part [OF cr] dec
        find_filename_header_block [OF fn] rsplit_max1_trailing)
qed

lemma decode_upload_of_encode_upload:
  assumes fn: "plain_filename fn"
      and dec: "decode (header_block fn) = header_block fn"
      and payload: "payload \<noteq> []"
      and delim: "\<not> contains (''--'' @ boundary)
                      (file_part fn payload @ butlast (''--'' @ boundary))"
  shows "decode_upload decode boundary (encode_upload boundary fn payload) = Inr (fn, payload)"
proof -
  let ?d = "''--'' @ boundary"
  have body: "encode_upload boundary fn payload =
      ?d @ (file_part fn payload @ ?d @ (''--'' @ CRLF))"
    by (simp add: encode_upload_def encode_files_def)
  have f1: "find_first ?d (?d @ (file_part fn payload @ ?d @ (''--'' @ CRLF)))
      = Some ([], file_part fn payload @ ?d @ (''--'' @ CRLF))"
    by (rule find_first_prefix) simp
  have "split_on ?d (encode_upload boundary fn payload) =
      [] # split_on ?d (file_part fn payload @ ?d @ (''--'' @ CRLF))"
    unfolding body by (subst split_on.simps) (simp only: f1, simp)
  also have "split_on ?d (file_part fn payload @ ?d @ (''--'' @ CRLF)) =
      file_part fn payload # split_on ?d (''--'' @ CRLF)"
    by (rule split_on_append [OF delim]) simp
  finally have parts: "split_on ?d (encode_upload boundary fn payload) =
      [[]] @ file_part fn payload # split_on ?d (''--'' @ CRLF)"
    by simp
  have before: "list_all readable_part [[]]"
    by (simp add: readable_part_def file_bearing_def)
  have "\<not> contains ''Content-Disposition'' (''--'' @ CRLF)"
    by (simp add: char_defs)
  then have "\<And>q. q \<in> set (split_on ?d (''--'' @ CRLF)) \<Longrightarrow> \<not> file_bearing q"
    unfolding file_bearing_def using contains_piece by blast
  then have after: "list_all (\<lambda>q. \<not> file_bearing q) (split_on ?d (''--'' @ CRLF))"
    by (simp add: list_all_iff)
  from fn have ne: "fn \<noteq> []"
    by (simp add: plain_filename_def)
  from fn have "sanitize_filename fn = fn"
    by (intro sanitize_filename_clean) (simp_all add: plain_filename_def)
  with decode_upload_of_parts [OF parts before file_part_file_bearing
      scan_part_file_part [of fn decode payload, OF fn dec] after ne payload]
  show ?thesis
    by simp
qed

text \<open>
  Claim C4, as the code has it. Encoding a plain filename that the header decoder leaves
  unchanged (an ASCII name) and a non-empty payload into a body with a boundary whose
  delimiter does not occur in the part, and decoding that body, gives back the filename
  and the exact payload.
\<close>

theorem decode_encode_upload:
  assumes "plain_filename fn"
      and "decode (header_block fn) = header_block fn"
      and "payload \<noteq> []"
      and "\<not> contains (''--'' @ boundary) (file_part fn payload @ butlast (''--'' @ boundary))"
  shows "decode_upload decode boundary (encode_upload boundary fn payload) = Inr (fn, payload)"
  using assms by (rule decode_upload_of_encode_upload)

text \<open>The filename \<open>a.jpg\<close> with the payload \<open>AAA\<close> under the boundary \<open>XYZ\<close>.\<close>

lemma plain_filename_a: "plain_filename ''a.jpg''"
  by (simp add: plain_filename_def is_space_def char_defs)

lemma plain_filename_b: "plain_filename ''b.jpg''"
  by (simp add: plain_filename_def is_space_def char_defs)

lemma decode_ascii_header_a: "decode_ascii (header_block ''a.jpg'') = header_block ''a.jpg''"
  by (simp add: decode_ascii_def header_block_def char_defs)

lemma decode_ascii_header_b: "decode_ascii (header_block ''b.jpg'') = header_block ''b.jpg''"
  by (simp add: decode_ascii_def header_block_def char_defs)

lemma delimiter_absent_a:
  "\<not> contains (''--'' @ ''XYZ'') (file_part ''a.jpg'' ''AAA'' @ butlast (''--'' @ ''XYZ''))"
  by (simp add: file_part_def header_block_def char_defs)

theorem decode_encode_upload_witness:
  "decode_upload decode_ascii ''XYZ'' (encode_upload ''XYZ'' ''a.jpg'' ''AAA'') = Inr (''a.jpg'', ''AAA'')"
  using decode_encode_upload [of "''a.jpg''" decode_ascii "''AAA''" "''XYZ''",
      OF plain_filename_a decode_ascii_header_a _ delimiter_absent_a]
  by simp

text \<open>
  The claim as stated fails: a well-formed body whose file is empty is refused by the
  test \<open>not image_data\<close> of line 795, and nothing is recovered.
\<close>

theorem decode_upload_empty_payload_counterexample:
  "decode_upload decode_ascii ''XYZ'' (encode_upload ''XYZ'' ''a.jpg'' []) = Inl NoImageFile"
  by (simp add: decode_upload_def encode_upload_def encode_files_def file_part_def header_block_def
      char_defs split_on.simps scan_part_def split_max1_def rsplit_max1_def find_last_def
      decode_ascii_def strip_def strip_by_def strip_chars_def is_space_def truthy_def)

text \<open>
  The body with the files \<open>a.jpg\<close> and \<open>b.jpg\<close>: its parts, and what the decoder returns.
\<close>

lemma two_files_parts:
  "split_on (''--'' @ ''XYZ'') two_files =
     [[], file_part ''a.jpg'' ''AAA''] @ file_part ''b.jpg'' ''BBB'' # [''--'' @ CRLF]"
  by (simp add: two_files_def encode_files_def file_part_def header_block_def char_defs split_on.simps)

lemma two_files_before: "list_all readable_part [[], file_part ''a.jpg'' ''AAA'']"
  by (simp add: readable_part_def file_bearing_def has_blank_line_def file_part_def header_block_def
      char_defs)

lemma two_files_after: "list_all (\<lambda>q. \<not> file_bearing q) [''--'' @ CRLF]"
  by (simp add: file_bearing_def char_defs)

lemma two_files_decoded:
  "decode_upload decode_ascii ''XYZ'' two_files = Inr (''b.jpg'', ''BBB'')"
  using decode_upload_of_parts [OF two_files_parts two_files_before file_part_file_bearing
      scan_part_file_part [of "''b.jpg''" decode_ascii "''BBB''", OF plain_filename_b decode_ascii_header_b]
      two_files_after]
    sanitize_filename_clean [of "''b.jpg''"]
  by (simp add: char_defs)

lemma concat_delimiter_shift:
  "concat (map (\<lambda>p. d @ r p) ps) @ d = d @ concat (map (\<lambda>p. r p @ d) ps)"
  by (induction ps) simp_all

lemma split_on_rendered:
  "list_all (\<lambda>p. \<not> contains d (r p @ butlast d)) ps \<Longrightarrow> d \<noteq> [] \<Longrightarrow>
   split_on d (concat (map (\<lambda>p. r p @ d) ps) @ t) = map r ps @ split_on d t"
proof (induction ps)
  case Nil
  then show ?case by simp
next
  case (Cons p ps)
  then have clean: "\<not> contains d (r p @ butlast d)"
    and rest: "split_on d (concat (map (\<lambda>p. r p @ d) ps) @ t) = map r ps @ split_on d t"
    by simp_all
  have "split_on d (r p @ d @ (concat (map (\<lambda>p. r p @ d) ps) @ t))
      = r p # split_on d (concat (map (\<lambda>p. r p @ d) ps) @ t)"
    using clean Cons.prems(2) by (rule split_on_append)
  with rest show ?case
    by simp
qed

lemma split_on_encode_form:
  assumes "list_all (\<lambda>p. delimiter_free boundary (render_part p)) parts"
  shows "split_on (''--'' @ boundary) (encode_form boundary parts) =
           [] # map render_part parts @ split_on (''--'' @ boundary) (''--'' @ CRLF)"
proof -
  let ?d = "''--'' @ boundary"
  have body: "encode_form boundary parts =
      ?d @ (concat (map (\<lambda>p. render_part p @ ?d) parts) @ (''--'' @ CRLF))"
    using concat_delimiter_shift [of ?d render_part parts]
    by (simp add: encode_form_def)
  have f: "find_first ?d (?d @ (concat (map (\<lambda>p. render_part p @ ?d) parts) @ (''--'' @ CRLF)))
      = Some ([], concat (map (\<lambda>p. render_part p @ ?d) parts) @ (''--'' @ CRLF))"
    by (rule find_first_prefix) simp
  have "split_on ?d (encode_form boundary parts) =
      [] # split_on ?d (concat (map (\<lambda>p. render_part p @ ?d) parts) @ (''--'' @ CRLF))"
    unfolding body by (subst split_on.simps) (simp only: f, simp)
  moreover have "split_on ?d (concat (map (\<lambda>p. render_part p @ ?d) parts) @ (''--'' @ CRLF))
      = map render_part parts @ split_on ?d (''--'' @ CRLF)"
    using assms by (intro split_on_rendered) (simp_all add: delimiter_free_def)
  ultimately show ?thesis
    by simp
qed

lemma file_part_readable: "readable_part (file_part fn payload)"
proof -
  have "file_part fn payload = header_block fn @ (CRLF @ CRLF) @ (payload @ CRLF)"
    by (simp add: file_part_def)
  then have "contains (CRLF @ CRLF) (file_part fn payload)"
    by (simp only: contains_intro)
  then show ?thesis
    by (simp add: readable_part_def has_blank_line_def)
qed

lemma plain_field_readable: "plain_field p \<Longrightarrow> readable_part (render_part p)"
proof (cases p)
  case (FilePart fn payload)
  then show ?thesis
    by (simp add: file_part_readable)
next
  case (FieldPart field)
  assume "plain_field p"
  with FieldPart show ?thesis
    by (simp add: plain_field_def readable_part_def file_bearing_def)
qed

lemma closing_not_file_bearing:
  "list_all (\<lambda>q. \<not> file_bearing q) (split_on d (''--'' @ CRLF))"
proof -
  have "\<not> contains ''Content-Disposition'' (''--'' @ CRLF)"
    by (simp add: char_defs)
  then have "\<And>q. q \<in> set (split_on d (''--'' @ CRLF)) \<Longrightarrow> \<not> file_bearing q"
    unfolding file_bearing_def using contains_piece by blast
  then show ?thesis
    by (simp add: list_all_iff)
qed

lemma decode_upload_of_encode_form:
  assumes clean: "list_all (\<lambda>p. delimiter_free boundary (render_part p))
                    (earlier @ FilePart fn payload # map FieldPart later)"
      and earlier: "list_all plain_field earlier"
      and later: "list_all (\<lambda>field. \<not> contains ''filename='' field) later"
      and fn: "plain_filename fn"
      and dec: "decode (header_block fn) = header_block fn"
      and payload: "payload \<noteq> []"
  shows "decode_upload decode boundary
           (encode_form boundary (earlier @ FilePart fn payload # map FieldPart later))
         = Inr (fn, payload)"
proof -
  let ?d = "''--'' @ boundary"
  have parts: "split_on ?d (encode_form boundary (earlier @ FilePart fn payload # map FieldPart later))
      = ([] # map render_part earlier) @ file_part fn payload
          # (later @ split_on ?d (''--'' @ CRLF))"
    using split_on_encode_form [OF clean] by (simp add: comp_def)
  have "readable_part []"
    by (simp add: readable_part_def file_bearing_def)
  moreover have "list_all readable_part (map render_part earlier)"
    using earlier by (induction earlier) (simp_all add: plain_field_readable)
  ultimately have before: "list_all readable_part ([] # map render_part earlier)"
    by simp
  have after: "list_all (\<lambda>q. \<not> file_bearing q) (later @ split_on ?d (''--'' @ CRLF))"
    using later closing_not_file_bearing [of ?d]
    by (auto simp: list_all_iff file_bearing_def)
  from fn have ne: "fn \<noteq> []"
    by (simp add: plain_filename_def)
  from fn have "sanitize_filename fn = fn"
    by (intro sanitize_filename_clean) (simp_all add: plain_filename_def)
  with decode_upload_of_parts [OF parts before file_part_file_bearing
      scan_part_file_part [of fn decode payload, OF fn dec] after ne payload]
  show ?thesis
    by simp
qed

text \<open>
  Claim C3, as the code has it. Take a form whose parts are files and fields, none
  containing the delimiter, the fields not containing the text \<open>filename=\<close>. If the last
  file of the form has a plain filename that the header decoder leaves unchanged (an
  ASCII name) and a non-empty payload, the upload decoder returns the filename and the
  payload of that last file, whatever files come before it: of two or more file parts
  the last is returned and the earlier ones are ignored.
\<close>

theorem decode_upload_last_file_part:
  assumes "list_all (\<lambda>p. delimiter_free boundary (render_part p))
             (earlier @ FilePart fn payload # map FieldPart later)"
      and "list_all plain_field earlier"
      and "list_all (\<lambda>field. \<not> contains ''filename='' field) later"
      and "plain_filename fn"
      and "decode (header_block fn) = header_block fn"
      and "payload \<noteq> []"
  shows "decode_upload decode boundary
           (encode_form boundary (earlier @ FilePart fn payload # map FieldPart later))
         = Inr (fn, payload)"
  using assms by (rule decode_upload_of_encode_form)

text \<open>
  A field, the file \<open>a.jpg\<close>, the file \<open>b.jpg\<close> and a field again, under the boundary
  \<open>XYZ\<close>: the decoder returns \<open>b.jpg\<close>.
\<close>

lemma form_example_delimiter_free:
  "list_all (\<lambda>p. delimiter_free ''XYZ'' (render_part p))
     ([FieldPart caption_field, FilePart ''a.jpg'' ''AAA''] @ FilePart ''b.jpg'' ''BBB''
        # map FieldPart [caption_field])"
  by (simp add: delimiter_free_def file_part_def header_block_def caption_field_def char_defs)

lemma form_example_fields:
  "list_all plain_field [FieldPart caption_field, FilePart ''a.jpg'' ''AAA'']
   \<and> list_all (\<lambda>field. \<not> contains ''filename='' field) [caption_field]"
  by (simp add: plain_field_def caption_field_def char_defs)

theorem decode_upload_last_file_part_witness:
  "decode_upload decode_ascii ''XYZ''
     (encode_form ''XYZ''
        ([FieldPart caption_field, FilePart ''a.jpg'' ''AAA''] @ FilePart ''b.jpg'' ''BBB''
           # map FieldPart [caption_field]))
   = Inr (''b.jpg'', ''BBB'')"
  using decode_upload_last_file_part [of "''XYZ''" "[FieldPart caption_field, FilePart ''a.jpg'' ''AAA'']"
      "''b.jpg''" "''BBB''" "[caption_field]" decode_ascii,
      OF form_example_delimiter_free conjunct1 [OF form_example_fields]
        conjunct2 [OF form_example_fields] plain_filename_b decode_ascii_header_b]
  by simp

text \<open>
  The claim as stated fails: in the body with the files \<open>a.jpg\<close> (payload \<open>AAA\<close>) and
  \<open>b.jpg\<close> (payload \<open>BBB\<close>), in this order, the first file-bearing part is that of
  \<open>a.jpg\<close>, and the decoder returns \<open>b.jpg\<close> with \<open>BBB\<close>.
\<close>

theorem decode_upload_first_file_part_counterexample:
  "two_files = encode_files ''XYZ'' [(''a.jpg'', ''AAA''), (''b.jpg'', ''BBB'')]
   \<and> split_on (''--'' @ ''XYZ'') two_files =
       [[], file_part ''a.jpg'' ''AAA'', file_part ''b.jpg'' ''BBB'', ''--'' @ CRLF]
   \<and> decode_upload decode_ascii ''XYZ'' two_files = Inr (''b.jpg'', ''BBB'')
   \<and> decode_upload decode_ascii ''XYZ'' two_files \<noteq> Inr (''a.jpg'', ''AAA'')"
proof -
  have 1: "two_files = encode_files ''XYZ'' [(''a.jpg'', ''AAA''), (''b.jpg'', ''BBB'')]"
    by (rule two_files_def)
  have 2: "split_on (''--'' @ ''XYZ'') two_files =
       [[], file_part ''a.jpg'' ''AAA'', file_part ''b.jpg'' ''BBB'', ''--'' @ CRLF]"
    using two_files_parts by simp
  have 3: "decode_upload decode_ascii ''XYZ'' two_files \<noteq> Inr (''a.jpg'', ''AAA'')"
    by (simp add: two_files_decoded)
  from 1 2 3 two_files_decoded show ?thesis
    by blast
qed


section \<open>Properties of the upload orchestrator\<close>

lemma enrich_without_gps:
  "enrich env name exif = (Ok r, calls) \<Longrightarrow>
   GPSLatitude exif = None \<or> GPSLongitude exif = None \<Longrightarrow>
   up_exif r = exif \<and> up_location r = None \<and> up_pois r = None
   \<and> up_camera_direction r = None \<and> calls = []"
  by (auto simp: enrich_def split: option.splits)

lemma enrich_exif:
  "enrich env name exif = (Ok r, calls) \<Longrightarrow> up_exif r = exif"
  by (auto simp: enrich_def split: option.splits sum.splits)

lemma handle_upload_Ok:
  assumes ok: "handle_upload env content_type body = (Ok r, calls)"
  shows "\<exists>name exif. enrich env name exif = (Ok r, calls)
           \<and> (\<forall>g p. handle_upload (env\<lparr>geocode := g, poi_fetch := p\<rparr>) content_type body
                  = enrich (env\<lparr>geocode := g, poi_fetch := p\<rparr>) name exif)"
proof (cases content_type)
  case None
  with ok show ?thesis
    by (simp add: handle_upload_def)
next
  case (Some ct)
  show ?thesis
  proof (cases "contains ''multipart/form-data'' ct")
    case False
    with ok Some show ?thesis
      by (simp add: handle_upload_def)
  next
    case True
    note mp = this
    show ?thesis
    proof (cases "\<exists>before boundary others. split_on ''boundary='' ct = before # boundary # others")
      case False
      then have "(case split_on ''boundary='' ct of
            before # boundary # others \<Rightarrow> (Ok r, calls)
          | _ \<Rightarrow> (ServerError IndexError, [])) = (ServerError IndexError, [])"
        by (auto split: list.splits)
      with False have "handle_upload env content_type body = (ServerError IndexError, [])"
        unfolding handle_upload_def Some using mp by (auto split: list.splits)
      with ok show ?thesis
        by simp
    next
      case True
      then obtain before boundary others
        where bd: "split_on ''boundary='' ct = before # boundary # others"
        by blast
      show ?thesis
      proof (cases body)
        case (Undecodable msg)
        with ok Some mp bd show ?thesis
          by (simp add: handle_upload_def)
      next
        case (Decoded bytes)
        show ?thesis
        proof (cases "decode_upload (decode_header env) boundary bytes")
          case (Inl failure)
          with ok Some mp bd Decoded show ?thesis
            by (cases failure) (simp_all add: handle_upload_def)
        next
          case (Inr decoded)
          obtain filename image_data where decoded: "decoded = (filename, image_data)"
            by (cases decoded)
          show ?thesis
          proof (cases "write_file env (timestamp env @ ''_'' @ filename) image_data")
            case (Some msg)
            with ok \<open>content_type = Some ct\<close> mp bd Decoded Inr decoded show ?thesis
              by (simp add: handle_upload_def Let_def)
          next
            case None
            with ok \<open>content_type = Some ct\<close> mp bd Decoded Inr decoded
            have 1: "enrich env (timestamp env @ ''_'' @ filename)
                (extract_exif_data (read_image env (timestamp env @ ''_'' @ filename) image_data))
              = (Ok r, calls)"
              by (simp add: handle_upload_def Let_def)
            from None \<open>content_type = Some ct\<close> mp bd Decoded Inr decoded
            have 2: "\<forall>g p. handle_upload (env\<lparr>geocode := g, poi_fetch := p\<rparr>) content_type body
                = enrich (env\<lparr>geocode := g, poi_fetch := p\<rparr>) (timestamp env @ ''_'' @ filename)
                    (extract_exif_data (read_image env (timestamp env @ ''_'' @ filename) image_data))"
              by (simp add: handle_upload_def Let_def)
            from 1 2 show ?thesis
              by blast
          qed
        qed
      qed
    qed
  qed
qed

lemma enrich_without_gps_any_network:
  "GPSLatitude exif = None \<or> GPSLongitude exif = None \<Longrightarrow>
   enrich (env\<lparr>geocode := g, poi_fetch := p\<rparr>) name exif = enrich env name exif"
  by (auto simp: enrich_def split: option.splits)

text \<open>
  Claim C5. Whenever an upload is answered with status 200 and the extracted metadata
  lacks \<open>GPSLatitude\<close> or \<open>GPSLongitude\<close>, the response carries no location, no POIs and
  no camera direction, and no geo enrichment client was invoked: the list of client
  invocations is empty, and the outcome is the same whatever the two network services
  would answer.
\<close>

theorem handle_upload_without_gps:
  assumes ok: "handle_upload env content_type body = (Ok r, calls)"
      and gps: "GPSLatitude (up_exif r) = None \<or> GPSLongitude (up_exif r) = None"
  shows "up_location r = None \<and> up_pois r = None \<and> up_camera_direction r = None \<and> calls = []
       \<and> (\<forall>g p. handle_upload (env\<lparr>geocode := g, poi_fetch := p\<rparr>) content_type body = (Ok r, calls))"
proof -
  from ok obtain name exif where e: "enrich env name exif = (Ok r, calls)"
    and any: "\<forall>g p. handle_upload (env\<lparr>geocode := g, poi_fetch := p\<rparr>) content_type body
                  = enrich (env\<lparr>geocode := g, poi_fetch := p\<rparr>) name exif"
    using handle_upload_Ok by blast
  from e have x: "up_exif r = exif"
    by (rule enrich_exif)
  with gps have g: "GPSLatitude exif = None \<or> GPSLongitude exif = None"
    by simp
  from any e have "\<forall>g p. handle_upload (env\<lparr>geocode := g, poi_fetch := p\<rparr>) content_type body = (Ok r, calls)"
    by (simp add: enrich_without_gps_any_network [OF g])
  with g e show ?thesis
    using enrich_without_gps [of env name exif r calls] by simp
qed

text \<open>
  An upload of \<open>a.jpg\<close> whose image has no GPS directory, against a network that does
  not answer.
\<close>

lemma upload_example:
  "handle_upload upload_env_example (Some ''multipart/form-data; boundary=XYZ'')
       (Decoded (encode_upload ''XYZ'' ''a.jpg'' ''AAA''))
     = (Ok upload_response_example, [])"
proof -
  have b: "split_on ''boundary='' ''multipart/form-data; boundary=XYZ'' = [''multipart/form-data; '', ''XYZ'']"
    by (simp add: split_on.simps)
  have c: "contains ''multipart/form-data'' ''multipart/form-data; boundary=XYZ''"
    by simp
  show ?thesis
    using decode_upload_of_encode_upload [of "''a.jpg''" decode_ascii "''AAA''" "''XYZ''",
      OF plain_filename_a decode_ascii_header_a _ delimiter_absent_a]
    by (simp add: handle_upload_def b c upload_env_example_def upload_response_example_def
        extract_exif_data_def enrich_def Let_def)
qed

theorem handle_upload_without_gps_witness:
  "handle_upload upload_env_example (Some ''multipart/form-data; boundary=XYZ'')
       (Decoded (encode_upload ''XYZ'' ''a.jpg'' ''AAA''))
     = (Ok upload_response_example, [])
   \<and> GPSLatitude (up_exif upload_response_example) = None
   \<and> up_location upload_response_example = None
   \<and> up_pois upload_response_example = None
   \<and> up_camera_direction upload_response_example = None"
  using handle_upload_without_gps [OF upload_example] upload_example
  by (simp add: upload_response_example_def)

end
